theory Spec2Isabelle
  imports Complex_Main
begin

section \<open>Data model of the consensus merge (intersect\_merge.py)\<close>

text \<open>
  Python floats are read as real numbers: the properties below are about which values are
  compared, summed and divided, not about rounding. Object identities (\<open>id(x)\<close>) are natural
  number handles carried by the objects.
\<close>

datatype py_error = KeyError | TypeError | ValueError | RecursionError | ZeroDivisionError
  | AssertionError
  | StopIteration
  | IndexError

datatype annotation_type = ALabel | ABbox | AMask | APolygon | APolyline | APoints | ASkeleton

text \<open>
  An annotation as the merge code reads it: its identity \<open>id(a)\<close>, \<open>a.type\<close>, \<open>a.label\<close>
  (a source-local label id), \<open>a.z_order\<close>, its coordinates, and the entries of
  \<open>a.attributes\<close> the code looks at: \<open>"score"\<close>, \<open>"outside"\<close> and \<open>"source"\<close>; an absent
  key is \<open>None\<close>.
\<close>

record annotation =
  ann_id :: nat
  atype :: annotation_type
  label :: "nat option"
  z_order :: int
  points :: "real list"
  score_attr :: "real option"
  outside_attr :: "bool option"
  source_attr :: "string option"

text \<open>\<open>a.attributes.get("score", d)\<close> and \<open>a.attributes.get("outside", False)\<close>.\<close>

definition get_score :: "real \<Rightarrow> annotation \<Rightarrow> real" where
  "get_score d a = (case score_attr a of None \<Rightarrow> d | Some s \<Rightarrow> s)"

definition get_outside :: "'a annotation_scheme \<Rightarrow> bool" where
  "get_outside a = (case outside_attr a of None \<Rightarrow> False | Some b \<Rightarrow> b)"

section \<open>CachedSimilarityFunction\<close>

text \<open>The cache is a dictionary from a sorted pair of annotation ids to a similarity.\<close>

type_synonym sim_cache = "nat \<times> nat \<rightharpoonup> real"

text \<open>\<open>_sort_key\<close>: the pair as a list, sorted ascending, as a tuple again.\<close>

definition sort_key_py :: "nat \<times> nat \<Rightarrow> nat \<times> nat" where
  "sort_key_py key = (case key of (x, y) \<Rightarrow> if y < x then (y, x) else (x, y))"

text \<open>
  \<open>__call__\<close>: equal ids give 1 without touching the cache; otherwise the sorted key is looked
  up and, on a miss, \<open>sim_fn(a, b)\<close> is computed and stored. The result is the value and the
  cache after the call.
\<close>

definition CachedSimilarityFunction_call ::
  "(annotation \<Rightarrow> annotation \<Rightarrow> real) \<Rightarrow> sim_cache \<Rightarrow> annotation \<Rightarrow> annotation
     \<Rightarrow> real \<times> sim_cache" where
  "CachedSimilarityFunction_call sim_fn cache a_ann b_ann =
     (let a_ann_id = ann_id a_ann; b_ann_id = ann_id b_ann in
      if a_ann_id = b_ann_id then (1, cache)
      else
        (let key = sort_key_py (a_ann_id, b_ann_id) in
         case cache key of
           None \<Rightarrow> (let cached_value = sim_fn a_ann b_ann in (cached_value, cache(key \<mapsto> cached_value)))
         | Some cached_value \<Rightarrow> (cached_value, cache)))"

definition CachedSimilarityFunction_pop :: "sim_cache \<Rightarrow> nat \<times> nat \<Rightarrow> real option \<times> sim_cache" where
  "CachedSimilarityFunction_pop cache key = (cache (sort_key_py key), cache((sort_key_py key) := None))"

definition CachedSimilarityFunction_set :: "sim_cache \<Rightarrow> nat \<times> nat \<Rightarrow> real \<Rightarrow> sim_cache" where
  "CachedSimilarityFunction_set cache key v = cache(sort_key_py key \<mapsto> v)"

section \<open>Pairwise matchers and their matching input\<close>

text \<open>\<open>_ShapeMatcher._get_ann_type\<close>: the annotations of type \<open>t\<close> that are not outside.\<close>

definition get_ann_type :: "annotation_type \<Rightarrow> annotation list \<Rightarrow> annotation list" where
  "get_ann_type t item = filter (\<lambda>a. atype a = t \<and> \<not> get_outside a) item"

text \<open>
  \<open>_match_segments\<close> hands its arguments to \<open>DistanceComparator.match_segments\<close> of the quality
  reports module, which is not part of these sources: it is a parameter, taking the type, both
  annotation lists and the optional objects to match, \<open>a_objs\<close> and \<open>b_objs\<close>, and returning
  matches, mismatches and the unmatched objects of each side. The distance and the label
  matcher that a matcher hands along are fixed by the matcher and its two lists, so they are
  part of the parameter. The objects are annotations for the box, polyline and points
  matchers, instance indices for the polygon matcher and merged point sets for the skeleton
  matcher.
\<close>

type_synonym ('a, 'o) match_segments_fn =
  "annotation_type \<Rightarrow> 'a list \<Rightarrow> 'a list
     \<Rightarrow> 'o list option \<Rightarrow> 'o list option
     \<Rightarrow> ('o \<times> 'o) list \<times> ('o \<times> 'o) list
         \<times> 'o list \<times> 'o list"

text \<open>
  \<open>PointsMatcher.match_annotations_two_sources\<close>: the objects to match are the points of
  both lists that are not outside.
\<close>

definition PointsMatcher_match_annotations_two_sources ::
  "(annotation, annotation) match_segments_fn \<Rightarrow> annotation list \<Rightarrow> annotation list
     \<Rightarrow> (annotation \<times> annotation) list" where
  "PointsMatcher_match_annotations_two_sources match_segments item_a item_b =
     (let a_points = get_ann_type APoints item_a;
          b_points = get_ann_type APoints item_b
      in fst (match_segments APoints item_a item_b (Some a_points) (Some b_points)))"

text \<open>
  \<open>BboxMatcher.match_annotations_two_sources\<close> and \<open>LineMatcher.match_annotations_two_sources\<close>
  name no objects: \<open>a_objs\<close> and \<open>b_objs\<close> keep their default \<open>None\<close>, and the comparator
  is handed both lists as they are.
\<close>

definition BboxMatcher_match_annotations_two_sources ::
  "(annotation, annotation) match_segments_fn \<Rightarrow> annotation list \<Rightarrow> annotation list
     \<Rightarrow> (annotation \<times> annotation) list" where
  "BboxMatcher_match_annotations_two_sources match_segments item_a item_b =
     fst (match_segments ABbox item_a item_b None None)"

definition LineMatcher_match_annotations_two_sources ::
  "(annotation, annotation) match_segments_fn \<Rightarrow> annotation list \<Rightarrow> annotation list
     \<Rightarrow> (annotation \<times> annotation) list" where
  "LineMatcher_match_annotations_two_sources match_segments item_a item_b =
     fst (match_segments APolyline item_a item_b None None)"

subsection \<open>Polygon and mask matcher\<close>

text \<open>\<open>_get_segmentations(item)\<close>: the polygons, then the masks, that are not outside.\<close>

definition get_segmentations :: "annotation list \<Rightarrow> annotation list" where
  "get_segmentations item = get_ann_type APolygon item @ get_ann_type AMask item"

text \<open>
  \<open>sorted(ann_group, key=lambda a: a.label)\<close>: a stable sort by the label. Sorting two or more
  members compares every key with another one, and a comparison with \<open>None\<close> raises
  TypeError.
\<close>

definition sorted_by_label :: "annotation list \<Rightarrow> py_error + annotation list" where
  "sorted_by_label ann_group =
     (if 2 \<le> length ann_group \<and> (\<exists>a \<in> set ann_group. label a = None) then Inl TypeError
      else Inr (sort_key (\<lambda>a. case label a of None \<Rightarrow> 0 | Some l \<Rightarrow> l) ann_group))"

text \<open>\<open>itertools.groupby(ann_group, key=lambda a: a.label)\<close>: the runs of equal labels.\<close>

function group_by_label :: "annotation list \<Rightarrow> annotation list list" where
  "group_by_label [] = []"
| "group_by_label (a # as) =
     (a # takeWhile (\<lambda>b. label b = label a) as)
       # group_by_label (dropWhile (\<lambda>b. label b = label a) as)"
  by pat_completeness auto

termination
proof (relation "measure length")
  show "wf (measure length)" by simp
next
  fix a :: annotation and as :: "annotation list"
  have "length (dropWhile (\<lambda>b. label b = label a) as) \<le> length as"
    by (rule length_dropWhile_le)
  then show "(dropWhile (\<lambda>b. label b = label a) as, a # as) \<in> measure length"
    by simp
qed

text \<open>
  The loop of \<open>_find_instances\<close> over the groups that \<open>dm.ops.find_instances\<close> returns: every
  group is sorted and split by label, and each run is one instance, in this order.
\<close>

fun instances_of_groups :: "annotation list list \<Rightarrow> py_error + annotation list list" where
  "instances_of_groups [] = Inr []"
| "instances_of_groups (ann_group # groups) =
     (case sorted_by_label ann_group of
        Inl e \<Rightarrow> Inl e
      | Inr sorted_group \<Rightarrow>
          (case instances_of_groups groups of
             Inl e \<Rightarrow> Inl e
           | Inr instances \<Rightarrow> Inr (group_by_label sorted_group @ instances)))"

text \<open>
  The matched instance indices give the pairs of their members,
  \<open>itertools.product(a_instances[i_a], b_instances[i_b])\<close>; an index that is no position of the
  list raises IndexError.
\<close>

fun instance_pairs ::
  "annotation list list \<Rightarrow> annotation list list \<Rightarrow> (nat \<times> nat) list
     \<Rightarrow> py_error + (annotation \<times> annotation) list" where
  "instance_pairs a_instances b_instances [] = Inr []"
| "instance_pairs a_instances b_instances ((i_a, i_b) # matched) =
     (if i_a < length a_instances \<and> i_b < length b_instances then
        (case instance_pairs a_instances b_instances matched of
           Inl e \<Rightarrow> Inl e
         | Inr pairs \<Rightarrow> Inr (List.product (a_instances ! i_a) (b_instances ! i_b) @ pairs))
      else Inl IndexError)"

text \<open>
  \<open>PolygonMatcher.match_annotations_two_sources\<close>, which \<open>MaskMatcher\<close> inherits. It reads the
  media size of the item of \<open>item_a[0]\<close> first: \<open>item_a[0]\<close> of an empty list raises
  IndexError, and \<open>get_item_media_dims\<close> of the context, which looks the annotation and its
  item up and reads the image, is a parameter that may raise. \<open>dm.ops.find_instances\<close> of
  datumaro, which groups annotations into instances, is a parameter as well. The objects to
  match are the indices of the instances of each side.
\<close>

definition PolygonMatcher_match_annotations_two_sources ::
  "(nat \<Rightarrow> py_error + nat \<times> nat) \<Rightarrow> (annotation list \<Rightarrow> annotation list list)
     \<Rightarrow> (annotation, nat) match_segments_fn \<Rightarrow> annotation list \<Rightarrow> annotation list
     \<Rightarrow> py_error + (annotation \<times> annotation) list" where
  "PolygonMatcher_match_annotations_two_sources get_item_media_dims find_instances match_segments
       item_a item_b =
     (case item_a of
        [] \<Rightarrow> Inl IndexError
      | a0 # _ \<Rightarrow>
          (case get_item_media_dims (ann_id a0) of
             Inl e \<Rightarrow> Inl e
           | Inr dims \<Rightarrow>
               (case instances_of_groups (find_instances (get_segmentations item_a)) of
                  Inl e \<Rightarrow> Inl e
                | Inr a_instances \<Rightarrow>
                    (case instances_of_groups (find_instances (get_segmentations item_b)) of
                       Inl e \<Rightarrow> Inl e
                     | Inr b_instances \<Rightarrow>
                         instance_pairs a_instances b_instances
                           (fst (match_segments APolygon item_a item_b
                                   (Some [0..<length a_instances])
                                   (Some [0..<length b_instances])))))))"

section \<open>Dictionaries and sets\<close>

text \<open>
  A Python dictionary keeps its keys in insertion order; assigning to a key that is present
  replaces the value in place, assigning to a new key appends it. A Python set is a list
  without duplicates; \<open>add\<close> of a member changes nothing.
\<close>

fun dict_set :: "('k \<times> 'v) list \<Rightarrow> 'k \<Rightarrow> 'v \<Rightarrow> ('k \<times> 'v) list" where
  "dict_set [] k v = [(k, v)]"
| "dict_set ((k', v') # kvs) k v =
     (if k' = k then (k, v) # kvs else (k', v') # dict_set kvs k v)"

definition set_add :: "'a list \<Rightarrow> 'a \<Rightarrow> 'a list" where
  "set_add xs x = (if x \<in> set xs then xs else xs @ [x])"

section \<open>Skeleton matcher\<close>

text \<open>
  A skeleton is an annotation with elements; of an element the matcher reads the label, the
  coordinates and the visibility of each of its points. The matcher builds one point set for
  every skeleton it keeps (\<open>merged_points\<close>, a new \<open>Points\<close> object): its handle, its
  coordinates, its visibilities and its label.
\<close>

datatype visibility = Absent | Hidden | Visible

record skeleton_element =
  elem_label :: "nat option"
  elem_points :: "real list"
  elem_visibility :: "visibility list"

record skeleton = annotation +
  elements :: "skeleton_element list"

record merged_points =
  mp_id :: nat
  mp_points :: "real list"
  mp_visibility :: "visibility list"
  mp_label :: "nat option"

text \<open>
  The body of the loop over the skeletons of a source. \<open>_get_skeleton_info\<close> of the comparator
  gives the sub-labels of a skeleton label, in order; it is a parameter, a function of the
  label, so that the entry kept in \<open>skeleton_infos\<close> is its value. For every sub-label the
  first element with this label is taken, \<open>None\<close> when there is none; \<open>np.ravel\<close> joins the
  coordinates and the visibilities of these elements in order, with \<open>[0, 0]\<close> and one
  absent point for a missing element. The handle of the new object is given by the
  parameter \<open>new_id\<close>, from the handle of the skeleton.
\<close>

definition merge_skeleton_points :: "(nat \<Rightarrow> nat) \<Rightarrow> nat list \<Rightarrow> skeleton \<Rightarrow> merged_points" where
  "merge_skeleton_points new_id skeleton_info skeleton =
     (let skeleton_points =
            map (\<lambda>sub_label. find (\<lambda>p. elem_label p = Some sub_label) (elements skeleton))
              skeleton_info
      in \<lparr>mp_id = new_id (ann_id skeleton),
          mp_points = concat (map (\<lambda>p. case p of None \<Rightarrow> [0, 0] | Some e \<Rightarrow> elem_points e)
                                skeleton_points),
          mp_visibility = concat (map (\<lambda>p. case p of None \<Rightarrow> [Absent] | Some e \<Rightarrow> elem_visibility e)
                                    skeleton_points),
          mp_label = label skeleton\<rparr>)"

text \<open>
  The loop over one source: a skeleton all of whose points are absent is left out
  (\<open>continue\<close>); of every other skeleton the point set is appended to the objects of the
  source and entered in \<open>points_map\<close> with its skeleton. The \<open>"outside"\<close> attribute of the
  skeleton is not read. The result lists the point sets with their skeletons.
\<close>

fun skeleton_source_points ::
  "(nat option \<Rightarrow> nat list) \<Rightarrow> (nat \<Rightarrow> nat) \<Rightarrow> skeleton list \<Rightarrow> (merged_points \<times> skeleton) list" where
  "skeleton_source_points get_skeleton_info new_id [] = []"
| "skeleton_source_points get_skeleton_info new_id (skeleton # source) =
     (let merged_points = merge_skeleton_points new_id (get_skeleton_info (label skeleton)) skeleton
      in if list_all (\<lambda>v. v = Absent) (mp_visibility merged_points)
         then skeleton_source_points get_skeleton_info new_id source
         else (merged_points, skeleton) # skeleton_source_points get_skeleton_info new_id source)"

text \<open>
  The similarity cache of the matcher as a dictionary whose keys can be listed; a value
  \<open>None\<close> is Python's \<open>None\<close>, which \<open>pop\<close> returns for a key that is not there and
  \<open>set\<close> stores like any value.
\<close>

type_synonym distance_dict = "((nat \<times> nat) \<times> real option) list"

definition distances_pop :: "distance_dict \<Rightarrow> nat \<times> nat \<Rightarrow> real option \<times> distance_dict" where
  "distances_pop distances key =
     (let k = sort_key_py key
      in (case map_of distances k of None \<Rightarrow> None | Some v \<Rightarrow> v,
          filter (\<lambda>e. fst e \<noteq> k) distances))"

definition distances_set :: "distance_dict \<Rightarrow> nat \<times> nat \<Rightarrow> real option \<Rightarrow> distance_dict" where
  "distances_set distances key v = dict_set distances (sort_key_py key) v"

text \<open>
  The loop \<open>for p_a_id, p_b_id in list(distances.keys())\<close>: every cached similarity is moved
  from the handles of the point sets to the handles of their skeletons; a handle that is
  not a key of \<open>points_map\<close> raises KeyError.
\<close>

fun remap_distances ::
  "(nat \<times> skeleton) list \<Rightarrow> distance_dict \<Rightarrow> (nat \<times> nat) list \<Rightarrow> py_error + distance_dict" where
  "remap_distances points_map distances [] = Inr distances"
| "remap_distances points_map distances ((p_a_id, p_b_id) # keys) =
     (let (dist, popped) = distances_pop distances (p_a_id, p_b_id) in
      case map_of points_map p_a_id of
        None \<Rightarrow> Inl KeyError
      | Some skeleton_a \<Rightarrow>
          (case map_of points_map p_b_id of
             None \<Rightarrow> Inl KeyError
           | Some skeleton_b \<Rightarrow>
               remap_distances points_map
                 (distances_set popped (ann_id skeleton_a, ann_id skeleton_b) dist) keys))"

text \<open>\<open>[(points_map[id(p_a)], points_map[id(p_b)]) for (p_a, p_b) in results[0]]\<close>.\<close>

fun matched_skeletons ::
  "(nat \<times> skeleton) list \<Rightarrow> (merged_points \<times> merged_points) list
     \<Rightarrow> py_error + (skeleton \<times> skeleton) list" where
  "matched_skeletons points_map [] = Inr []"
| "matched_skeletons points_map ((p_a, p_b) # matches) =
     (case map_of points_map (mp_id p_a) of
        None \<Rightarrow> Inl KeyError
      | Some skeleton_a \<Rightarrow>
          (case map_of points_map (mp_id p_b) of
             None \<Rightarrow> Inl KeyError
           | Some skeleton_b \<Rightarrow>
               (case matched_skeletons points_map matches of
                  Inl e \<Rightarrow> Inl e
                | Inr pairs \<Rightarrow> Inr ((skeleton_a, skeleton_b) # pairs))))"

text \<open>
  \<open>SkeletonMatcher.match_annotations_two_sources\<close>. The comparator is called with the point
  sets as the objects to match and with the cached distance of the matcher, so it is a
  parameter that also takes the cache and returns it as its calls of the distance left it.
  The result is the matched skeletons and the cache after the call. The class attributes
  \<open>skeleton_map\<close> and \<open>instance_map\<close>, which the function fills for the keypoint distance of
  the quality reports module, do not enter the result and are left out.
\<close>

type_synonym skeleton_match_segments_fn =
  "annotation_type \<Rightarrow> skeleton list \<Rightarrow> skeleton list
     \<Rightarrow> merged_points list option \<Rightarrow> merged_points list option \<Rightarrow> distance_dict
     \<Rightarrow> ((merged_points \<times> merged_points) list \<times> (merged_points \<times> merged_points) list
          \<times> merged_points list \<times> merged_points list) \<times> distance_dict"

definition SkeletonMatcher_match_annotations_two_sources ::
  "(nat option \<Rightarrow> nat list) \<Rightarrow> (nat \<Rightarrow> nat) \<Rightarrow> skeleton_match_segments_fn \<Rightarrow> distance_dict
     \<Rightarrow> skeleton list \<Rightarrow> skeleton list
     \<Rightarrow> py_error + ((skeleton \<times> skeleton) list \<times> distance_dict)" where
  "SkeletonMatcher_match_annotations_two_sources get_skeleton_info new_id match_segments distances
       a_skeletons b_skeletons =
     (if a_skeletons = [] \<and> b_skeletons = [] then Inr ([], distances)
      else
        (let a_entries = skeleton_source_points get_skeleton_info new_id a_skeletons;
             b_entries = skeleton_source_points get_skeleton_info new_id b_skeletons;
             points_map = fold (\<lambda>(p, skeleton) m. dict_set m (mp_id p) skeleton)
                            (a_entries @ b_entries) [];
             (results, distances1) =
               match_segments APoints a_skeletons b_skeletons
                 (Some (map fst a_entries)) (Some (map fst b_entries)) distances
         in case remap_distances points_map distances1 (map fst distances1) of
              Inl e \<Rightarrow> Inl e
            | Inr distances2 \<Rightarrow>
                (case matched_skeletons points_map (fst results) of
                   Inl e \<Rightarrow> Inl e
                 | Inr matched \<Rightarrow> Inr (matched, distances2))))"

section \<open>Cluster builder: \<open>_ShapeMatcher.match_annotations\<close>\<close>

text \<open>
  The sources are the annotation lists of one item, one list per source; \<open>id(s)\<close> of the
  list at position \<open>k\<close> is modelled by \<open>k\<close>. \<open>id_segm\<close> maps \<open>id(a)\<close> to \<open>(a, id(s))\<close>.
\<close>

type_synonym id_segm_dict = "(nat \<times> (annotation \<times> nat)) list"

type_synonym adjacent_dict = "(nat \<times> nat list) list"

definition id_segm_of :: "annotation list list \<Rightarrow> id_segm_dict" where
  "id_segm_of sources =
     fold (\<lambda>(k, s) d. fold (\<lambda>a d'. dict_set d' (ann_id a) (a, k)) s d) (enumerate 0 sources) []"

text \<open>
  \<open>self.distance\<close> is a parameter here, a function of the two annotations: the memoised
  similarity of the matcher. \<open>match_annotations_two_sources\<close> differs per shape type and rests
  on the quality reports module; it is the parameter \<open>match2\<close>.
\<close>

text \<open>\<open>_is_close_enough(cluster, extra_id)\<close>.\<close>

fun is_close_enough_loop ::
  "(annotation \<Rightarrow> annotation \<Rightarrow> real) \<Rightarrow> real \<Rightarrow> id_segm_dict \<Rightarrow> annotation \<Rightarrow> nat list
     \<Rightarrow> py_error + bool" where
  "is_close_enough_loop distance cluster_dist id_segm b [] = Inr True"
| "is_close_enough_loop distance cluster_dist id_segm b (a_id # cluster) =
     (case map_of id_segm a_id of
        None \<Rightarrow> Inl KeyError
      | Some (a, _) \<Rightarrow>
          if distance a b < cluster_dist then Inr False
          else is_close_enough_loop distance cluster_dist id_segm b cluster)"

definition is_close_enough ::
  "(annotation \<Rightarrow> annotation \<Rightarrow> real) \<Rightarrow> real \<Rightarrow> id_segm_dict \<Rightarrow> nat list \<Rightarrow> nat
     \<Rightarrow> py_error + bool" where
  "is_close_enough distance cluster_dist id_segm cluster extra_id =
     (case map_of id_segm extra_id of
        None \<Rightarrow> Inl KeyError
      | Some (b, _) \<Rightarrow> is_close_enough_loop distance cluster_dist id_segm b cluster)"

text \<open>\<open>_has_same_source(cluster, extra_id)\<close>.\<close>

fun has_same_source_loop :: "id_segm_dict \<Rightarrow> nat \<Rightarrow> nat list \<Rightarrow> py_error + bool" where
  "has_same_source_loop id_segm b [] = Inr False"
| "has_same_source_loop id_segm b (a_id # cluster) =
     (case map_of id_segm a_id of
        None \<Rightarrow> Inl KeyError
      | Some (_, a) \<Rightarrow> if a = b then Inr True else has_same_source_loop id_segm b cluster)"

definition has_same_source :: "id_segm_dict \<Rightarrow> nat list \<Rightarrow> nat \<Rightarrow> py_error + bool" where
  "has_same_source id_segm cluster extra_id =
     (case map_of id_segm extra_id of
        None \<Rightarrow> Inl KeyError
      | Some (_, b) \<Rightarrow> has_same_source_loop id_segm b cluster)"

text \<open>The pairwise matching of every source with every later source fills \<open>adjacent\<close>.\<close>

fun add_matches :: "adjacent_dict \<Rightarrow> (annotation \<times> annotation) list \<Rightarrow> py_error + adjacent_dict" where
  "add_matches adjacent [] = Inr adjacent"
| "add_matches adjacent ((a, b) # matches) =
     (case map_of adjacent (ann_id a) of
        None \<Rightarrow> Inl KeyError
      | Some adj \<Rightarrow> add_matches (dict_set adjacent (ann_id a) (adj @ [ann_id b])) matches)"

fun match_later_sources ::
  "(annotation list \<Rightarrow> annotation list \<Rightarrow> (annotation \<times> annotation) list) \<Rightarrow> adjacent_dict
     \<Rightarrow> annotation list \<Rightarrow> annotation list list \<Rightarrow> py_error + adjacent_dict" where
  "match_later_sources match2 adjacent src_a [] = Inr adjacent"
| "match_later_sources match2 adjacent src_a (src_b # later) =
     (case add_matches adjacent (match2 src_a src_b) of
        Inl e \<Rightarrow> Inl e
      | Inr adjacent' \<Rightarrow> match_later_sources match2 adjacent' src_a later)"

fun match_all_sources ::
  "(annotation list \<Rightarrow> annotation list \<Rightarrow> (annotation \<times> annotation) list) \<Rightarrow> adjacent_dict
     \<Rightarrow> annotation list list \<Rightarrow> py_error + adjacent_dict" where
  "match_all_sources match2 adjacent [] = Inr adjacent"
| "match_all_sources match2 adjacent (src_a # later) =
     (case match_later_sources match2 adjacent src_a later of
        Inl e \<Rightarrow> Inl e
      | Inr adjacent' \<Rightarrow> match_all_sources match2 adjacent' later)"

text \<open>
  The loop over \<open>adjacent[c]\<close>: a neighbour that is visited, not close enough to the current
  cluster (when \<open>0 < cluster_dist\<close>), or of the source of a current member is skipped;
  any other is added to \<open>to_visit\<close>. Both guards read \<open>cluster\<close>, the members admitted
  so far.
\<close>

fun visit_adjacent ::
  "(annotation \<Rightarrow> annotation \<Rightarrow> real) \<Rightarrow> real \<Rightarrow> id_segm_dict \<Rightarrow> nat list \<Rightarrow> nat list
     \<Rightarrow> nat list \<Rightarrow> nat list \<Rightarrow> py_error + nat list" where
  "visit_adjacent distance cluster_dist id_segm cluster visited to_visit [] = Inr to_visit"
| "visit_adjacent distance cluster_dist id_segm cluster visited to_visit (i # adj) =
     (if i \<in> set visited then
        visit_adjacent distance cluster_dist id_segm cluster visited to_visit adj
      else
        (case (if 0 < cluster_dist
               then is_close_enough distance cluster_dist id_segm cluster i
               else Inr True) of
           Inl e \<Rightarrow> Inl e
         | Inr close \<Rightarrow>
             if \<not> close then
               visit_adjacent distance cluster_dist id_segm cluster visited to_visit adj
             else
               (case has_same_source id_segm cluster i of
                  Inl e \<Rightarrow> Inl e
                | Inr same \<Rightarrow>
                    if same then
                      visit_adjacent distance cluster_dist id_segm cluster visited to_visit adj
                    else
                      visit_adjacent distance cluster_dist id_segm cluster visited
                        (set_add to_visit i) adj)))"

lemma visit_adjacent_keeps_visited:
  "visit_adjacent distance cluster_dist id_segm cluster visited to_visit adj = Inr to_visit'
   \<Longrightarrow> filter (\<lambda>x. x \<in> set visited) to_visit' = filter (\<lambda>x. x \<in> set visited) to_visit"
proof (induction adj arbitrary: to_visit)
  case Nil
  then show ?case by simp
next
  case (Cons i adj)
  show ?case
  proof (cases "i \<in> set visited")
    case True
    with Cons show ?thesis by simp
  next
    case False
    have add: "filter (\<lambda>x. x \<in> set visited) (set_add to_visit i) = filter (\<lambda>x. x \<in> set visited) to_visit"
      using False by (simp add: set_add_def)
    from Cons.prems False show ?thesis
      by (auto simp: add split: sum.splits if_splits dest!: Cons.IH)
  qed
qed

lemma length_filter_removeAll_le:
  "length (filter P (removeAll c xs)) \<le> length (filter P xs)"
  by (induction xs) auto

lemma length_filter_removeAll_less:
  "c \<in> set xs \<Longrightarrow> P c \<Longrightarrow> length (filter P (removeAll c xs)) < length (filter P xs)"
proof (induction xs)
  case Nil
  then show ?case by simp
next
  case (Cons x xs)
  show ?case
  proof (cases "x = c")
    case True
    with Cons.prems show ?thesis
      using length_filter_removeAll_le [of P c xs] by simp
  next
    case False
    with Cons show ?thesis by simp
  qed
qed

text \<open>
  The \<open>while to_visit\<close> loop. \<open>to_visit.pop()\<close> removes an arbitrary member: the
  parameter \<open>pick\<close> chooses its position. The loop ends because every round either
  visits a key of \<open>adjacent\<close> that was not visited, or removes a visited member from
  \<open>to_visit\<close>, and the neighbours added are never visited ones.
\<close>

function grow_cluster ::
  "(nat list \<Rightarrow> nat) \<Rightarrow> (annotation \<Rightarrow> annotation \<Rightarrow> real) \<Rightarrow> real \<Rightarrow> id_segm_dict
     \<Rightarrow> adjacent_dict \<Rightarrow> nat list \<Rightarrow> nat list \<Rightarrow> nat list \<Rightarrow> py_error + (nat list \<times> nat list)" where
  "grow_cluster pick distance cluster_dist id_segm adjacent cluster visited to_visit =
     (if to_visit = [] then Inr (cluster, visited)
      else
        (case map_of adjacent (to_visit ! (pick to_visit mod length to_visit)) of
           None \<Rightarrow> Inl KeyError
         | Some adj \<Rightarrow>
             (case visit_adjacent distance cluster_dist id_segm
                     (set_add cluster (to_visit ! (pick to_visit mod length to_visit)))
                     (set_add visited (to_visit ! (pick to_visit mod length to_visit)))
                     (removeAll (to_visit ! (pick to_visit mod length to_visit)) to_visit) adj of
                Inl e \<Rightarrow> Inl e
              | Inr to_visit' \<Rightarrow>
                  grow_cluster pick distance cluster_dist id_segm adjacent
                    (set_add cluster (to_visit ! (pick to_visit mod length to_visit)))
                    (set_add visited (to_visit ! (pick to_visit mod length to_visit)))
                    to_visit')))"
  by pat_completeness auto
termination
proof (relation "measure (\<lambda>(pick, distance, cluster_dist, id_segm, adjacent, cluster, visited, to_visit).
          2 * card (fst ` set adjacent - set visited) + length (filter (\<lambda>x. x \<in> set visited) to_visit))")
  show "wf (measure (\<lambda>(pick, distance, cluster_dist, id_segm, adjacent, cluster, visited, to_visit).
          2 * card (fst ` set adjacent - set visited) + length (filter (\<lambda>x. x \<in> set visited) to_visit)))"
    by simp
next
  fix pick :: "nat list \<Rightarrow> nat" and distance :: "annotation \<Rightarrow> annotation \<Rightarrow> real"
    and cluster_dist :: real and id_segm :: id_segm_dict and adjacent :: adjacent_dict
    and cluster visited to_visit :: "nat list" and adj to_visit'
  assume ne: "to_visit \<noteq> []"
    and adj: "map_of adjacent (to_visit ! (pick to_visit mod length to_visit)) = Some adj"
    and va: "visit_adjacent distance cluster_dist id_segm
               (set_add cluster (to_visit ! (pick to_visit mod length to_visit)))
               (set_add visited (to_visit ! (pick to_visit mod length to_visit)))
               (removeAll (to_visit ! (pick to_visit mod length to_visit)) to_visit) adj = Inr to_visit'"
  define c where "c = to_visit ! (pick to_visit mod length to_visit)"
  have c_in: "c \<in> set to_visit"
    using ne by (simp add: c_def)
  have c_key: "c \<in> fst ` set adjacent"
    using adj map_of_SomeD unfolding c_def by force
  have keep: "filter (\<lambda>x. x \<in> set (set_add visited c)) to_visit'
      = filter (\<lambda>x. x \<in> set (set_add visited c)) (removeAll c to_visit)"
    using visit_adjacent_keeps_visited [OF va [folded c_def]] .
  have fin: "finite (fst ` set adjacent - set visited)" by simp
  show "((pick, distance, cluster_dist, id_segm, adjacent,
          set_add cluster (to_visit ! (pick to_visit mod length to_visit)),
          set_add visited (to_visit ! (pick to_visit mod length to_visit)), to_visit'),
         (pick, distance, cluster_dist, id_segm, adjacent, cluster, visited, to_visit))
        \<in> measure (\<lambda>(pick, distance, cluster_dist, id_segm, adjacent, cluster, visited, to_visit).
          2 * card (fst ` set adjacent - set visited) + length (filter (\<lambda>x. x \<in> set visited) to_visit))"
  proof (cases "c \<in> set visited")
    case True
    then have same: "set_add visited c = visited" by (simp add: set_add_def)
    have "length (filter (\<lambda>x. x \<in> set visited) (removeAll c to_visit))
        < length (filter (\<lambda>x. x \<in> set visited) to_visit)"
      using c_in True by (simp add: length_filter_removeAll_less)
    then show ?thesis
      using keep by (simp add: c_def [symmetric] same)
  next
    case False
    then have vis: "set (set_add visited c) = insert c (set visited)" by (simp add: set_add_def)
    have "fst ` set adjacent - insert c (set visited) = (fst ` set adjacent - set visited) - {c}"
      by auto
    moreover have "c \<in> fst ` set adjacent - set visited" using c_key False by simp
    ultimately have card: "card (fst ` set adjacent - insert c (set visited)) < card (fst ` set adjacent - set visited)"
      using fin by (metis card_Diff1_less)
    have "filter (\<lambda>x. x \<in> insert c (set visited)) (removeAll c to_visit)
        = filter (\<lambda>x. x \<in> set visited) (removeAll c to_visit)"
      by (induction to_visit) auto
    moreover have "length (filter (\<lambda>x. x \<in> set visited) (removeAll c to_visit))
        \<le> length (filter (\<lambda>x. x \<in> set visited) to_visit)"
      by (rule length_filter_removeAll_le)
    ultimately show ?thesis
      using keep card by (simp add: c_def [symmetric] vis)
  qed
qed

declare grow_cluster.simps [simp del]

text \<open>\<open>[id_segm[i][0] for i in cluster]\<close>.\<close>

fun cluster_annotations :: "id_segm_dict \<Rightarrow> nat list \<Rightarrow> py_error + annotation list" where
  "cluster_annotations id_segm [] = Inr []"
| "cluster_annotations id_segm (i # cluster) =
     (case map_of id_segm i of
        None \<Rightarrow> Inl KeyError
      | Some (a, _) \<Rightarrow>
          (case cluster_annotations id_segm cluster of
             Inl e \<Rightarrow> Inl e
           | Inr anns \<Rightarrow> Inr (a # anns)))"

text \<open>The loop \<open>for cluster_idx in adjacent\<close>, over the keys in their order.\<close>

fun join_clusters ::
  "(nat list \<Rightarrow> nat) \<Rightarrow> (annotation \<Rightarrow> annotation \<Rightarrow> real) \<Rightarrow> real \<Rightarrow> id_segm_dict
     \<Rightarrow> adjacent_dict \<Rightarrow> nat list \<Rightarrow> nat list \<Rightarrow> annotation list list
     \<Rightarrow> py_error + annotation list list" where
  "join_clusters pick distance cluster_dist id_segm adjacent [] visited clusters = Inr clusters"
| "join_clusters pick distance cluster_dist id_segm adjacent (cluster_idx # keys) visited clusters =
     (if cluster_idx \<in> set visited then
        join_clusters pick distance cluster_dist id_segm adjacent keys visited clusters
      else
        (case grow_cluster pick distance cluster_dist id_segm adjacent [] visited [cluster_idx] of
           Inl e \<Rightarrow> Inl e
         | Inr (cluster, visited') \<Rightarrow>
             (case cluster_annotations id_segm cluster of
                Inl e \<Rightarrow> Inl e
              | Inr anns \<Rightarrow>
                  join_clusters pick distance cluster_dist id_segm adjacent keys visited'
                    (clusters @ [anns]))))"

text \<open>
  \<open>match_annotations(sources)\<close>: a negative \<open>cluster_dist\<close> stands for \<open>pairwise_dist\<close>.
  A cluster lists its members in the order they were admitted (the source builds it from a
  set, whose order is not fixed).
\<close>

definition match_annotations ::
  "(nat list \<Rightarrow> nat) \<Rightarrow> (annotation \<Rightarrow> annotation \<Rightarrow> real)
     \<Rightarrow> (annotation list \<Rightarrow> annotation list \<Rightarrow> (annotation \<times> annotation) list)
     \<Rightarrow> real \<Rightarrow> real \<Rightarrow> annotation list list \<Rightarrow> py_error + annotation list list" where
  "match_annotations pick distance match2 pairwise_dist cluster_dist0 sources =
     (let cluster_dist = (if cluster_dist0 < 0 then pairwise_dist else cluster_dist0);
          id_segm = id_segm_of sources
      in case match_all_sources match2 (map (\<lambda>(i, _). (i, [])) id_segm) sources of
           Inl e \<Rightarrow> Inl e
         | Inr adjacent \<Rightarrow>
             join_clusters pick distance cluster_dist id_segm adjacent (map fst adjacent) [] [])"

text \<open>The source of a cluster member, as \<open>_has_same_source\<close> reads it from \<open>id_segm\<close>.\<close>

definition source_of :: "annotation list list \<Rightarrow> annotation \<Rightarrow> nat option" where
  "source_of sources a = map_option snd (map_of (id_segm_of sources) (ann_id a))"

section \<open>Errors and the merge context\<close>

text \<open>
  An item is identified across sources by its id and subset. \<open>add_item_error\<close> appends
  \<open>error(self._item_id, ...)\<close> to \<open>self.errors\<close>: \<open>NoMatchingItemError\<close> carries the list
  \<open>sources\<close>, \<open>FailedLabelVotingError\<close> the votes and, from the label merger, \<open>sources\<close>.
\<close>

type_synonym item_key = "string \<times> string"

datatype votes_tally =
    ShapeVotes "(string \<times> real \<times> nat) list"
  | LabelVotes "(string \<times> nat) list"

datatype item_error =
    NoMatchingItemError "item_key option" "nat list"
  | FailedLabelVotingError "item_key option" votes_tally "nat list option"

text \<open>
  The fields of \<open>IntersectMerge\<close> that the merge writes: \<open>errors\<close>, \<open>_dataset_map\<close>
  (\<open>id(dataset)\<close> to the dataset's index), \<open>_item_id\<close> (unset before the first item),
  \<open>_ann_map\<close> (\<open>id(ann)\<close> to the annotation and \<open>id(item)\<close>) and
  \<open>dataset_mean_consensus_score\<close> (\<open>id(dataset)\<close> to the list of scores recorded so far).
\<close>

record merge_ctx =
  errors :: "item_error list"
  dataset_map :: "(nat \<times> nat) list"
  item_id :: "item_key option"
  ann_map :: "(nat \<times> (annotation \<times> nat)) list"
  dataset_mean_consensus_score :: "(nat \<times> real list) list"

definition add_item_error :: "merge_ctx \<Rightarrow> (item_key option \<Rightarrow> item_error) \<Rightarrow> merge_ctx" where
  "add_item_error ctx error = ctx\<lparr>errors := errors ctx @ [error (item_id ctx)]\<rparr>"

definition dataset_count :: "merge_ctx \<Rightarrow> nat" where
  "dataset_count ctx = length (dataset_map ctx)"

text \<open>
  What the mergers call outside these sources: the label name resolution and the owner lookup
  of the datumaro base class (\<open>get_src_label_name\<close>, \<open>get_label_id\<close>, \<open>get_ann_source\<close>, the
  last giving \<open>id(dataset)\<close> for \<open>id(ann)\<close>), the memoised similarity \<open>self.distance\<close> of the
  shape type, and the overlap of a member's shape with the mean box of its cluster
  (\<open>mean_bbox\<close>, \<open>to_polygon\<close>, \<open>segment_iou\<close>). They are parameters.
\<close>

record externals =
  get_src_label_name :: "annotation \<Rightarrow> nat option \<Rightarrow> string"
  get_label_id :: "string option \<Rightarrow> nat option"
  get_ann_source :: "nat \<Rightarrow> nat"
  shape_distance :: "annotation \<Rightarrow> annotation \<Rightarrow> real"
  mean_box_iou :: "annotation list \<Rightarrow> annotation \<Rightarrow> real"

text \<open>
  Python's \<open>max(xs, key=f)\<close> and \<open>min(xs, key=f)\<close> return the first element with the
  greatest (least) key: the running best is replaced only by a strictly better element.
\<close>

fun max_first :: "('a \<Rightarrow> 'b::linorder) \<Rightarrow> 'a \<Rightarrow> 'a list \<Rightarrow> 'a" where
  "max_first key best [] = best"
| "max_first key best (x # xs) =
     (if key best < key x then max_first key x xs else max_first key best xs)"

fun min_first :: "('a \<Rightarrow> 'b::linorder) \<Rightarrow> 'a \<Rightarrow> 'a list \<Rightarrow> 'a" where
  "min_first key best [] = best"
| "min_first key best (x # xs) =
     (if key x < key best then min_first key x xs else min_first key best xs)"

section \<open>Shape mergers: \<open>_ShapeMerger\<close>\<close>

text \<open>
  The vote loop of \<open>find_cluster_label\<close>: per label name, the accumulated \<open>"score"\<close>
  attribute (1.0 when absent) and the number of members.
\<close>

fun tally_shape_votes ::
  "externals \<Rightarrow> (string \<times> real \<times> nat) list \<Rightarrow> annotation list \<Rightarrow> (string \<times> real \<times> nat) list" where
  "tally_shape_votes ext votes [] = votes"
| "tally_shape_votes ext votes (s # cluster) =
     (let name = get_src_label_name ext s (label s);
          state = (case map_of votes name of None \<Rightarrow> (0, 0) | Some st \<Rightarrow> st)
      in tally_shape_votes ext
           (dict_set votes name (fst state + get_score 1 s, snd state + 1)) cluster)"

text \<open>
  \<open>find_cluster_label\<close>: the first label with the greatest accumulated score wins; below the
  quorum an error is recorded and the label is \<open>None\<close>. \<open>max\<close> of no votes raises ValueError,
  a division by a dataset count of 0 ZeroDivisionError.
\<close>

definition find_cluster_label ::
  "externals \<Rightarrow> int \<Rightarrow> merge_ctx \<Rightarrow> annotation list
     \<Rightarrow> py_error + ((nat option \<times> real) \<times> merge_ctx)" where
  "find_cluster_label ext quorum ctx cluster =
     (let votes = tally_shape_votes ext [] cluster in
      case votes of
        [] \<Rightarrow> Inl ValueError
      | v # vs \<Rightarrow>
          (case max_first (\<lambda>e. fst (snd e)) v vs of
             (name, score, count) \<Rightarrow>
               (let ctx' = (if int count < quorum
                            then add_item_error ctx
                                   (\<lambda>i. FailedLabelVotingError i (ShapeVotes votes) None)
                            else ctx);
                    winner = (if int count < quorum then None else Some name)
                in if dataset_count ctx = 0 then Inl ZeroDivisionError
                   else Inr ((get_label_id ext winner, score / real (dataset_count ctx)), ctx'))))"

text \<open>
  \<open>_merge_cluster_shape_mean_box_nearest\<close>: the first member whose overlap with the mean box
  is greatest. The mean box of no annotations does not exist (a division by the length).
\<close>

definition merge_cluster_shape_mean_box_nearest ::
  "externals \<Rightarrow> annotation list \<Rightarrow> py_error + annotation" where
  "merge_cluster_shape_mean_box_nearest ext cluster =
     (case enumerate 0 (map (mean_box_iou ext cluster) cluster) of
        [] \<Rightarrow> Inl ZeroDivisionError
      | e # es \<Rightarrow> Inr (cluster ! fst (max_first snd e es)))"

text \<open>\<open>dataset_mean_consensus_score.setdefault(dataset_id, []).append(v)\<close>.\<close>

definition append_consensus_score :: "merge_ctx \<Rightarrow> nat \<Rightarrow> real \<Rightarrow> merge_ctx" where
  "append_consensus_score ctx dataset_id v =
     ctx\<lparr>dataset_mean_consensus_score :=
           dict_set (dataset_mean_consensus_score ctx) dataset_id
             ((case map_of (dataset_mean_consensus_score ctx) dataset_id of
                 None \<Rightarrow> [] | Some l \<Rightarrow> l) @ [v])\<rparr>"

text \<open>
  \<open>_ShapeMerger.merge_cluster_shape\<close>: the representative, the consensus score of every
  member recorded for its source, and the shape score.
\<close>

definition ShapeMerger_merge_cluster_shape ::
  "externals \<Rightarrow> merge_ctx \<Rightarrow> annotation list \<Rightarrow> py_error + ((annotation \<times> real) \<times> merge_ctx)" where
  "ShapeMerger_merge_cluster_shape ext ctx cluster =
     (case merge_cluster_shape_mean_box_nearest ext cluster of
        Inl e \<Rightarrow> Inl e
      | Inr shape \<Rightarrow>
          (let ctx' = fold (\<lambda>ann c. append_consensus_score c (get_ann_source ext (ann_id ann))
                                      (max 0 (shape_distance ext ann shape))) cluster ctx;
               shape_score = sum_list (map (\<lambda>s. max 0 (shape_distance ext shape s)) cluster)
                               / real (length cluster)
           in Inr ((shape, shape_score), ctx')))"

text \<open>
  \<open>merge_cluster\<close>, over the \<open>merge_cluster_shape\<close> of the class (the skeleton merger has
  its own): \<open>None\<close> when the label is \<open>None\<close>, else the representative with the greatest
  z-order of the cluster, the label and the score.
\<close>

definition merge_cluster ::
  "(merge_ctx \<Rightarrow> annotation list \<Rightarrow> py_error + ((annotation \<times> real) \<times> merge_ctx))
     \<Rightarrow> externals \<Rightarrow> int \<Rightarrow> merge_ctx \<Rightarrow> annotation list
     \<Rightarrow> py_error + (annotation option \<times> merge_ctx)" where
  "merge_cluster merge_cluster_shape ext quorum ctx cluster =
     (case find_cluster_label ext quorum ctx cluster of
        Inl e \<Rightarrow> Inl e
      | Inr ((lab, label_score), ctx1) \<Rightarrow>
          (case lab of
             None \<Rightarrow> Inr (None, ctx1)
           | Some l \<Rightarrow>
               (case merge_cluster_shape ctx1 cluster of
                  Inl e \<Rightarrow> Inl e
                | Inr ((shape, shape_score), ctx2) \<Rightarrow>
                    Inr (Some (shape\<lparr>z_order := z_order (max_first z_order (hd cluster) (tl cluster)),
                                     label := Some l,
                                     score_attr := Some (label_score * shape_score)\<rparr>), ctx2))))"

text \<open>\<open>merge_clusters\<close>: the merged annotations of the clusters that gave one.\<close>

fun merge_clusters ::
  "(merge_ctx \<Rightarrow> annotation list \<Rightarrow> py_error + ((annotation \<times> real) \<times> merge_ctx))
     \<Rightarrow> externals \<Rightarrow> int \<Rightarrow> merge_ctx \<Rightarrow> annotation list list
     \<Rightarrow> py_error + (annotation list \<times> merge_ctx)" where
  "merge_clusters mcs ext quorum ctx [] = Inr ([], ctx)"
| "merge_clusters mcs ext quorum ctx (cluster # clusters) =
     (case merge_cluster mcs ext quorum ctx cluster of
        Inl e \<Rightarrow> Inl e
      | Inr (m, ctx1) \<Rightarrow>
          (case merge_clusters mcs ext quorum ctx1 clusters of
             Inl e \<Rightarrow> Inl e
           | Inr (ms, ctx2) \<Rightarrow> Inr ((case m of None \<Rightarrow> ms | Some a \<Rightarrow> a # ms), ctx2)))"

section \<open>Skeleton merger\<close>

text \<open>
  \<open>self.distance\<close> of the skeleton merger on two skeletons. Equal ids give 1 and a cached
  pair its cached value. On a miss \<open>__call__\<close> calls \<open>SkeletonMatcher._distance_func\<close>, which for
  two skeletons calls \<open>self.distance(a, b)\<close> again while the cache is as it was: the
  recursion has no end, and Python raises RecursionError.
\<close>

definition SkeletonMatcher_distance ::
  "sim_cache \<Rightarrow> annotation \<Rightarrow> annotation \<Rightarrow> py_error + real" where
  "SkeletonMatcher_distance cache a b =
     (if ann_id a = ann_id b then Inr 1
      else
        (case cache (sort_key_py (ann_id a, ann_id b)) of
           Some cached_value \<Rightarrow> Inr cached_value
         | None \<Rightarrow> Inl RecursionError))"

text \<open>The inner loop of \<open>_merge_cluster_shape_nearest\<close>: \<open>skeleton_distance += ...\<close>.\<close>

fun sum_skeleton_distance ::
  "sim_cache \<Rightarrow> annotation \<Rightarrow> real \<Rightarrow> annotation list \<Rightarrow> py_error + real" where
  "sum_skeleton_distance cache skeleton1 skeleton_distance [] = Inr skeleton_distance"
| "sum_skeleton_distance cache skeleton1 skeleton_distance (skeleton2 # rest) =
     (case SkeletonMatcher_distance cache skeleton1 skeleton2 of
        Inl e \<Rightarrow> Inl e
      | Inr d \<Rightarrow> sum_skeleton_distance cache skeleton1 (skeleton_distance + d) rest)"

text \<open>The outer loop: \<open>dist[idx] = skeleton_distance / len(cluster)\<close>, in index order.\<close>

fun skeleton_dist ::
  "sim_cache \<Rightarrow> annotation list \<Rightarrow> annotation list \<Rightarrow> py_error + real list" where
  "skeleton_dist cache cluster [] = Inr []"
| "skeleton_dist cache cluster (skeleton1 # rest) =
     (case sum_skeleton_distance cache skeleton1 0 cluster of
        Inl e \<Rightarrow> Inl e
      | Inr skeleton_distance \<Rightarrow>
          (case skeleton_dist cache cluster rest of
             Inl e \<Rightarrow> Inl e
           | Inr dists \<Rightarrow> Inr (skeleton_distance / real (length cluster) # dists)))"

text \<open>
  \<open>_merge_cluster_shape_nearest\<close>: \<open>cluster[min(dist, key=dist.get)]\<close>, the member at the
  first index whose value is least; \<open>min\<close> of an empty dictionary raises ValueError.
\<close>

definition merge_cluster_shape_nearest ::
  "sim_cache \<Rightarrow> annotation list \<Rightarrow> py_error + annotation" where
  "merge_cluster_shape_nearest cache cluster =
     (case skeleton_dist cache cluster cluster of
        Inl e \<Rightarrow> Inl e
      | Inr dists \<Rightarrow>
          (case enumerate 0 dists of
             [] \<Rightarrow> Inl ValueError
           | e # es \<Rightarrow> Inr (cluster ! fst (min_first snd e es))))"

fun sum_max0_skeleton_distance ::
  "sim_cache \<Rightarrow> annotation \<Rightarrow> real \<Rightarrow> annotation list \<Rightarrow> py_error + real" where
  "sum_max0_skeleton_distance cache shape acc [] = Inr acc"
| "sum_max0_skeleton_distance cache shape acc (s # rest) =
     (case SkeletonMatcher_distance cache shape s of
        Inl e \<Rightarrow> Inl e
      | Inr d \<Rightarrow> sum_max0_skeleton_distance cache shape (acc + max 0 d) rest)"

text \<open>\<open>SkeletonMerger.merge_cluster_shape\<close>; it records no consensus score.\<close>

definition SkeletonMerger_merge_cluster_shape ::
  "sim_cache \<Rightarrow> merge_ctx \<Rightarrow> annotation list \<Rightarrow> py_error + ((annotation \<times> real) \<times> merge_ctx)" where
  "SkeletonMerger_merge_cluster_shape cache ctx cluster =
     (case merge_cluster_shape_nearest cache cluster of
        Inl e \<Rightarrow> Inl e
      | Inr shape \<Rightarrow>
          (case sum_max0_skeleton_distance cache shape 0 cluster of
             Inl e \<Rightarrow> Inl e
           | Inr tot \<Rightarrow> Inr ((shape, tot / real (length cluster)), ctx)))"

text \<open>
  The average distance of the member at position \<open>i\<close> to all other members of the cluster,
  as the claim about the representative words it; the value of a pair is the one
  \<open>SkeletonMatcher_distance\<close> returns.
\<close>

definition skeleton_distance_value :: "sim_cache \<Rightarrow> annotation \<Rightarrow> annotation \<Rightarrow> real" where
  "skeleton_distance_value cache a b =
     (case SkeletonMatcher_distance cache a b of Inl e \<Rightarrow> 0 | Inr d \<Rightarrow> d)"

definition average_distance_to_others :: "sim_cache \<Rightarrow> annotation list \<Rightarrow> nat \<Rightarrow> real" where
  "average_distance_to_others cache cluster i =
     sum_list (map (\<lambda>j. skeleton_distance_value cache (cluster ! i) (cluster ! j))
                 (filter (\<lambda>j. j \<noteq> i) [0..<length cluster]))
       / real (length cluster - 1)"

section \<open>Label merger\<close>

text \<open>
  \<open>LabelMatcher.match_annotations\<close>: the label annotations of all sources are one cluster,
  \<open>[sum(sources, [])]\<close>.
\<close>

definition LabelMatcher_match_annotations :: "annotation list list \<Rightarrow> annotation list list" where
  "LabelMatcher_match_annotations sources = [concat sources]"

text \<open>\<open>votes[label] = 1 + votes.get(label, 0)\<close> over the cluster.\<close>

fun tally_label_votes ::
  "externals \<Rightarrow> (string \<times> nat) list \<Rightarrow> annotation list \<Rightarrow> (string \<times> nat) list" where
  "tally_label_votes ext votes [] = votes"
| "tally_label_votes ext votes (ann # cluster) =
     (let name = get_src_label_name ext ann (label ann)
      in tally_label_votes ext
           (dict_set votes name (1 + (case map_of votes name of None \<Rightarrow> 0 | Some c \<Rightarrow> c)))
           cluster)"

text \<open>
  The sources of a label below the quorum:
  \<open>set(get_ann_source(id(a)) for a in clusters[0] if label not in [... for l in a])\<close>.
  The condition iterates over the member \<open>a\<close> itself. The members of \<open>clusters[0]\<close> are
  annotations (the vote loop above reads \<open>ann.label\<close> of each), and an annotation is not
  iterable: the condition raises TypeError at the first member. Of an empty cluster the set
  is empty.
\<close>

definition failed_vote_sources ::
  "externals \<Rightarrow> merge_ctx \<Rightarrow> annotation list \<Rightarrow> string \<Rightarrow> py_error + nat list" where
  "failed_vote_sources ext ctx cluster name =
     (case cluster of [] \<Rightarrow> Inr [] | a # _ \<Rightarrow> Inl TypeError)"

text \<open>
  A merged label: the label id and the \<open>"score"\<close> attribute of
  \<open>Label(label_id, attributes={"score": ...})\<close>.
\<close>

type_synonym merged_label = "nat option \<times> real"

fun label_votes_loop ::
  "externals \<Rightarrow> int \<Rightarrow> annotation list \<Rightarrow> (string \<times> nat) list \<Rightarrow> merge_ctx \<Rightarrow> merged_label list
     \<Rightarrow> (string \<times> nat) list \<Rightarrow> py_error + (merged_label list \<times> merge_ctx)" where
  "label_votes_loop ext quorum cluster votes ctx merged [] = Inr (merged, ctx)"
| "label_votes_loop ext quorum cluster votes ctx merged ((name, count) # rest) =
     (if int count < quorum then
        (case failed_vote_sources ext ctx cluster name of
           Inl e \<Rightarrow> Inl e
         | Inr sources \<Rightarrow>
             label_votes_loop ext quorum cluster votes
               (add_item_error ctx (\<lambda>i. FailedLabelVotingError i (LabelVotes votes) (Some sources)))
               merged rest)
      else if dataset_count ctx = 0 then Inl ZeroDivisionError
      else
        label_votes_loop ext quorum cluster votes ctx
          (merged @ [(get_label_id ext (Some name), real count / real (dataset_count ctx))]) rest)"

text \<open>\<open>LabelMerger.merge_clusters\<close>; more than one cluster fails the assertion.\<close>

definition LabelMerger_merge_clusters ::
  "externals \<Rightarrow> int \<Rightarrow> merge_ctx \<Rightarrow> annotation list list
     \<Rightarrow> py_error + (merged_label list \<times> merge_ctx)" where
  "LabelMerger_merge_clusters ext quorum ctx clusters =
     (if 1 < length clusters then Inl AssertionError
      else
        (case clusters of
           [] \<Rightarrow> Inr ([], ctx)
         | cluster # _ \<Rightarrow>
             (let votes = tally_label_votes ext [] cluster
              in label_votes_loop ext quorum cluster votes ctx [] votes)))"

section \<open>Orchestrator: \<open>IntersectMerge.merge_items\<close> and \<open>__call__\<close>\<close>

text \<open>
  A dataset item: its identity \<open>id(item)\<close>, its key and its annotations. The items matched
  for one key are a dictionary from \<open>id(dataset)\<close> to the item of that dataset.
\<close>

record dataset_item =
  item_obj_id :: nat
  item_key_of :: item_key
  annotations :: "annotation list"

type_synonym matched_items = "(nat \<times> dataset_item) list"

text \<open>
  \<open>merge_annotations\<close> is the method of the datumaro base class, which drives the matchers
  and mergers above for every annotation type: a parameter, from the context and the sources
  to the context after it and the merged annotations, or to the exception that leaves it (an
  exception raised by a matcher or a merger is not caught on the way).
\<close>

type_synonym merge_annotations_fn =
  "merge_ctx \<Rightarrow> annotation list list \<Rightarrow> py_error + (merge_ctx \<times> annotation list)"

text \<open>\<open>annotation.attributes["source"] = "consensus"\<close>.\<close>

definition tag_consensus :: "annotation \<Rightarrow> annotation" where
  "tag_consensus a = a\<lparr>source_attr := Some ''consensus''\<rparr>"

text \<open>
  \<open>merge_items(items)\<close>: \<open>next(iter(items.values()))\<close> of no items raises StopIteration; the
  annotations of the items are indexed in \<open>_ann_map\<close> and merged, and an exception of
  \<open>merge_annotations\<close> leaves \<open>merge_items\<close> as it is; the merged annotations whose
  \<open>"score"\<close> (1 when absent) reaches \<open>output_conf_thresh\<close> are kept and tagged, and the
  first item is returned with them as its annotations (\<open>wrap\<close>).
\<close>

definition index_annotations :: "merge_ctx \<Rightarrow> matched_items \<Rightarrow> merge_ctx" where
  "index_annotations ctx items =
     ctx\<lparr>ann_map :=
           fold (\<lambda>(_, item) m.
                   fold (\<lambda>a m'. dict_set m' (ann_id a) (a, item_obj_id item)) (annotations item) m)
             items (ann_map ctx)\<rparr>"

definition item_sources :: "matched_items \<Rightarrow> annotation list list" where
  "item_sources items = map (\<lambda>(_, item). annotations item) items"

definition merge_items ::
  "real \<Rightarrow> merge_annotations_fn \<Rightarrow> merge_ctx \<Rightarrow> matched_items
     \<Rightarrow> py_error + (dataset_item \<times> merge_ctx)" where
  "merge_items output_conf_thresh merge_annotations ctx items =
     (case items of
        [] \<Rightarrow> Inl StopIteration
      | first # _ \<Rightarrow>
          (case merge_annotations (index_annotations ctx items) (item_sources items) of
             Inl e \<Rightarrow> Inl e
           | Inr (ctx2, merged) \<Rightarrow>
               (let kept = filter (\<lambda>a. output_conf_thresh \<le> get_score 1 a) merged
                in Inr ((snd first)\<lparr>annotations := map tag_consensus kept\<rparr>, ctx2))))"

text \<open>
  The sources an item is missing from: \<open>set(id(s) for s in datasets) - set(items)\<close>, then
  \<open>[self._dataset_map[s][1] for s in missing_sources]\<close>. The set is listed here in the order
  of the datasets; Python fixes no order.
\<close>

definition missing_source_ids :: "nat list \<Rightarrow> matched_items \<Rightarrow> nat list" where
  "missing_source_ids datasets items =
     filter (\<lambda>s. s \<notin> set (map fst items)) (remdups datasets)"

fun dataset_indices :: "(nat \<times> nat) list \<Rightarrow> nat list \<Rightarrow> py_error + nat list" where
  "dataset_indices dmap [] = Inr []"
| "dataset_indices dmap (s # ss) =
     (case map_of dmap s of
        None \<Rightarrow> Inl KeyError
      | Some i \<Rightarrow>
          (case dataset_indices dmap ss of
             Inl e \<Rightarrow> Inl e
           | Inr is \<Rightarrow> Inr (i # is)))"

text \<open>
  The loop of \<open>__call__\<close> over the matched items, in their order; \<open>merged.put\<close> stores the
  merged item under its key. Nothing in the loop catches an exception: the first one ends
  the call.
\<close>

fun merge_all_items ::
  "real \<Rightarrow> merge_annotations_fn \<Rightarrow> nat list \<Rightarrow> merge_ctx \<Rightarrow> (item_key \<times> dataset_item) list
     \<Rightarrow> (item_key \<times> matched_items) list
     \<Rightarrow> py_error + ((item_key \<times> dataset_item) list \<times> merge_ctx)" where
  "merge_all_items thresh ma datasets ctx merged [] = Inr (merged, ctx)"
| "merge_all_items thresh ma datasets ctx merged ((key, items) # rest) =
     (let ctx1 = ctx\<lparr>item_id := Some key\<rparr> in
      case (if length items < length datasets
            then (case dataset_indices (dataset_map ctx1) (missing_source_ids datasets items) of
                    Inl e \<Rightarrow> Inl e
                  | Inr missing_sources \<Rightarrow>
                      Inr (add_item_error ctx1 (\<lambda>i. NoMatchingItemError i missing_sources)))
            else Inr ctx1) of
        Inl e \<Rightarrow> Inl e
      | Inr ctx2 \<Rightarrow>
          (case merge_items thresh ma ctx2 items of
             Inl e \<Rightarrow> Inl e
           | Inr (item, ctx3) \<Rightarrow>
               merge_all_items thresh ma datasets ctx3
                 (dict_set merged (item_key_of item) item) rest))"

text \<open>
  The context at the start of a call: no errors, \<open>_dataset_map\<close> from the enumeration of the
  datasets, an empty score list for every dataset, an empty \<open>_ann_map\<close>.
\<close>

definition initial_ctx :: "nat list \<Rightarrow> merge_ctx" where
  "initial_ctx datasets =
     \<lparr>errors = [],
      dataset_map = fold (\<lambda>(i, d) m. dict_set m d i) (enumerate 0 datasets) [],
      item_id = None,
      ann_map = [],
      dataset_mean_consensus_score = fold (\<lambda>d m. dict_set m d []) datasets []\<rparr>"

text \<open>\<open>np.mean\<close>: the arithmetic mean; of an empty list it is NaN, here \<open>None\<close>.\<close>

definition np_mean :: "real list \<Rightarrow> real option" where
  "np_mean xs = (if xs = [] then None else Some (sum_list xs / real (length xs)))"

text \<open>
  \<open>__call__(datasets)\<close>, given the matched items (\<open>match_items\<close> is the base class's): the
  merged items, the errors, and \<open>dataset_mean_consensus_score\<close> after every list has been
  replaced by its mean. The category merge and the check of the group definitions, both of
  the base class, are taken to pass.
\<close>

record merge_result =
  merged_items :: "(item_key \<times> dataset_item) list"
  result_errors :: "item_error list"
  mean_consensus_score :: "(nat \<times> real option) list"

definition IntersectMerge_call ::
  "real \<Rightarrow> merge_annotations_fn \<Rightarrow> nat list \<Rightarrow> (item_key \<times> matched_items) list
     \<Rightarrow> py_error + merge_result" where
  "IntersectMerge_call thresh ma datasets item_matches =
     (case merge_all_items thresh ma datasets (initial_ctx datasets) [] item_matches of
        Inl e \<Rightarrow> Inl e
      | Inr (merged, ctx) \<Rightarrow>
          Inr \<lparr>merged_items = merged,
               result_errors = errors ctx,
               mean_consensus_score =
                 map (\<lambda>(d, xs). (d, np_mean xs)) (dataset_mean_consensus_score ctx)\<rparr>)"

section \<open>Concrete inputs\<close>

text \<open>An annotation of a type with an id, label 0 and nothing else set.\<close>

definition shape_ann :: "annotation_type \<Rightarrow> nat \<Rightarrow> annotation" where
  "shape_ann t i = \<lparr>ann_id = i, atype = t, label = Some 0, z_order = 0, points = [],
     score_attr = None, outside_attr = None, source_attr = None\<rparr>"

text \<open>
  A comparator that pairs in order the objects it is given and, where it is given none, the
  annotations of the two lists.
\<close>

definition zip_match_segments :: "('a, 'a) match_segments_fn" where
  "zip_match_segments t item_a item_b a_objs b_objs =
     (zip (case a_objs of None \<Rightarrow> item_a | Some ao \<Rightarrow> ao)
          (case b_objs of None \<Rightarrow> item_b | Some bo \<Rightarrow> bo), [], [], [])"

text \<open>
  A comparator that pairs the objects it is given in order, and none when it is given none;
  the same for point sets, computing no distance.
\<close>

definition zip_match_objs :: "('a, 'o) match_segments_fn" where
  "zip_match_objs t item_a item_b a_objs b_objs =
     (zip (case a_objs of None \<Rightarrow> [] | Some ao \<Rightarrow> ao)
          (case b_objs of None \<Rightarrow> [] | Some bo \<Rightarrow> bo), [], [], [])"

definition zip_match_points :: skeleton_match_segments_fn where
  "zip_match_points t item_a item_b a_objs b_objs distances =
     ((zip (case a_objs of None \<Rightarrow> [] | Some ao \<Rightarrow> ao)
           (case b_objs of None \<Rightarrow> [] | Some bo \<Rightarrow> bo), [], [], []), distances)"

text \<open>
  Two annotation lists with points, polygons and masks, some of them outside; every
  annotation is an instance of its own, and every item is 100 by 100.
\<close>

definition mixed_source_a :: "annotation list" where
  "mixed_source_a =
     [shape_ann APoints 10, (shape_ann APoints 11)\<lparr>outside_attr := Some True\<rparr>,
      shape_ann APolygon 12, (shape_ann APolygon 13)\<lparr>outside_attr := Some True\<rparr>]"

definition mixed_source_b :: "annotation list" where
  "mixed_source_b =
     [(shape_ann APoints 20)\<lparr>outside_attr := Some True\<rparr>, shape_ann APoints 21,
      (shape_ann AMask 22)\<lparr>outside_attr := Some True\<rparr>, shape_ann AMask 23]"

definition single_instances :: "annotation list \<Rightarrow> annotation list list" where
  "single_instances anns = map (\<lambda>a. [a]) anns"

definition example_media_dims :: "nat \<Rightarrow> py_error + nat \<times> nat" where
  "example_media_dims i = Inr (100, 100)"

text \<open>
  A skeleton with the label 0 and one element, of the sub-label 1, with one point of the
  given visibility, and with the given \<open>"outside"\<close> attribute; every skeleton label has the
  one sub-label 1, and the point set of the skeleton with the handle i has the handle
  100 + i.
\<close>

definition example_skeleton :: "nat \<Rightarrow> bool option \<Rightarrow> visibility \<Rightarrow> skeleton" where
  "example_skeleton i out v =
     \<lparr>ann_id = i, atype = ASkeleton, label = Some 0, z_order = 0, points = [],
      score_attr = None, outside_attr = out, source_attr = None,
      elements = [\<lparr>elem_label = Some 1, elem_points = [0, 0], elem_visibility = [v]\<rparr>]\<rparr>"

definition example_skeleton_info :: "nat option \<Rightarrow> nat list" where
  "example_skeleton_info l = [1]"

definition example_new_id :: "nat \<Rightarrow> nat" where
  "example_new_id i = 100 + i"

text \<open>
  Three sources with one box each; the box of the first source is matched with the box of
  each other source, and the other two boxes are not matched with each other: their
  similarity is 3/10, that of each with the first box 3/5.
\<close>

definition star_match2 :: "annotation list \<Rightarrow> annotation list \<Rightarrow> (annotation \<times> annotation) list" where
  "star_match2 src_a src_b =
     (if map ann_id src_a = [10] \<and> map ann_id src_b = [20] then [(hd src_a, hd src_b)]
      else if map ann_id src_a = [10] \<and> map ann_id src_b = [30] then [(hd src_a, hd src_b)]
      else [])"

definition star_distance :: "annotation \<Rightarrow> annotation \<Rightarrow> real" where
  "star_distance a b =
     (if ann_id a = ann_id b then 1
      else if ann_id a = 10 \<or> ann_id b = 10 then 3/5 else 3/10)"

text \<open>
  Two sources of polygons; the two polygons of the second source form one instance, and the
  polygon matcher returns the pairs of the matched instances' members. Every similarity
  is 4/5.
\<close>

definition instance_match2 :: "annotation list \<Rightarrow> annotation list \<Rightarrow> (annotation \<times> annotation) list" where
  "instance_match2 src_a src_b =
     (if map ann_id src_a = [10] \<and> map ann_id src_b = [20, 21]
      then [(hd src_a, hd src_b), (hd src_a, hd (tl src_b))]
      else [])"

definition instance_distance :: "annotation \<Rightarrow> annotation \<Rightarrow> real" where
  "instance_distance a b = (if ann_id a = ann_id b then 1 else 4/5)"

text \<open>
  Three sources of boxes, the third with two boxes; every pairwise matching is one to one:
  box 10 with 20, box 10 with 30, box 20 with 31. Matched pairs have similarity 7/10, the
  other pairs 3/5.
\<close>

definition chain_match2 :: "annotation list \<Rightarrow> annotation list \<Rightarrow> (annotation \<times> annotation) list" where
  "chain_match2 src_a src_b =
     (if map ann_id src_a = [10] \<and> map ann_id src_b = [20] then [(hd src_a, hd src_b)]
      else if map ann_id src_a = [10] \<and> map ann_id src_b = [30, 31] then [(hd src_a, hd src_b)]
      else if map ann_id src_a = [20] \<and> map ann_id src_b = [30, 31] then [(hd src_a, hd (tl src_b))]
      else [])"

definition chain_distance :: "annotation \<Rightarrow> annotation \<Rightarrow> real" where
  "chain_distance a b =
     (if ann_id a = ann_id b then 1
      else if sort_key_py (ann_id a, ann_id b) \<in> {(10, 20), (10, 30), (20, 31)} then 7/10
      else 3/5)"

text \<open>
  The label names of a cluster in the order they are first seen, the accumulated confidence of
  a label (the sum of the scores of the members that carry it, 1 for a member without score)
  and the number of members that carry it.
\<close>

definition label_name :: "externals \<Rightarrow> annotation \<Rightarrow> string" where
  "label_name ext s = get_src_label_name ext s (label s)"

definition seen_order :: "'a list \<Rightarrow> 'a list" where
  "seen_order xs = fold (\<lambda>x acc. set_add acc x) xs []"

definition accumulated_confidence :: "externals \<Rightarrow> annotation list \<Rightarrow> string \<Rightarrow> real" where
  "accumulated_confidence ext cluster name =
     sum_list (map (get_score 1) (filter (\<lambda>s. label_name ext s = name) cluster))"

definition supporting_count :: "externals \<Rightarrow> annotation list \<Rightarrow> string \<Rightarrow> nat" where
  "supporting_count ext cluster name = length (filter (\<lambda>s. label_name ext s = name) cluster)"

text \<open>
  Label names and owners for the concrete inputs: label id 0 is \<open>car\<close>, any other
  \<open>truck\<close>; the annotation with id i belongs to the dataset with id 10 * i.
\<close>

definition example_externals :: externals where
  "example_externals =
     \<lparr>get_src_label_name = (\<lambda>a l. if l = Some 0 then ''car'' else ''truck''),
      get_label_id = (\<lambda>n. if n = Some ''car'' then Some 0
                           else if n = Some ''truck'' then Some 1 else None),
      get_ann_source = (\<lambda>i. 10 * i),
      shape_distance = (\<lambda>a b. if ann_id a = ann_id b then 1 else 4/5),
      mean_box_iou = (\<lambda>cluster a. 1)\<rparr>"

text \<open>A similarity cache over the skeletons 10, 20 and 30.\<close>

definition example_cache :: sim_cache where
  "example_cache = [(10, 20) \<mapsto> 9/10, (10, 30) \<mapsto> 1/2, (20, 30) \<mapsto> 2/5]"

section \<open>What the orchestrator needs of \<open>merge_annotations\<close>\<close>

text \<open>
  \<open>NoMatchingItemError\<close> is recorded by \<open>__call__\<close> only; the mergers above add
  \<open>FailedLabelVotingError\<close>. The property asked of the base class's \<open>merge_annotations\<close>:
  when it returns, it has left \<open>_dataset_map\<close> as it is and appended errors other than
  \<open>NoMatchingItemError\<close>.
\<close>

definition is_missing_sources_error :: "item_error \<Rightarrow> bool" where
  "is_missing_sources_error e =
     (case e of NoMatchingItemError k srcs \<Rightarrow> True | FailedLabelVotingError k v srcs \<Rightarrow> False)"

definition missing_sources_error_of :: "item_key \<Rightarrow> item_error \<Rightarrow> bool" where
  "missing_sources_error_of key e =
     (case e of NoMatchingItemError k srcs \<Rightarrow> k = Some key
              | FailedLabelVotingError k v srcs \<Rightarrow> False)"

definition adds_no_missing_sources_error :: "merge_annotations_fn \<Rightarrow> bool" where
  "adds_no_missing_sources_error ma =
     (\<forall>ctx sources ctx' merged.
        ma ctx sources = Inr (ctx', merged) \<longrightarrow>
        dataset_map ctx' = dataset_map ctx \<and>
        (\<exists>es. errors ctx' = errors ctx @ es \<and>
              list_all (\<lambda>e. \<not> is_missing_sources_error e) es))"

text \<open>The indices of the datasets that have no item among the matched items.\<close>

definition absent_source_indices :: "nat list \<Rightarrow> matched_items \<Rightarrow> nat list" where
  "absent_source_indices datasets items =
     filter (\<lambda>i. datasets ! i \<notin> set (map fst items)) [0..<length datasets]"

text \<open>
  Every score recorded so far is in [0, 1]; and the property asked of \<open>merge_annotations\<close>
  for the range of the means: when it returns, it has removed no dataset from
  \<open>dataset_mean_consensus_score\<close> and kept the recorded scores in [0, 1].
\<close>

definition scores_in_unit :: "(nat \<times> real list) list \<Rightarrow> bool" where
  "scores_in_unit scores = list_all (\<lambda>(d, xs). list_all (\<lambda>x. 0 \<le> x \<and> x \<le> 1) xs) scores"

definition records_unit_scores :: "merge_annotations_fn \<Rightarrow> bool" where
  "records_unit_scores ma =
     (\<forall>ctx sources ctx' merged.
        ma ctx sources = Inr (ctx', merged) \<longrightarrow>
        set (map fst (dataset_mean_consensus_score ctx))
          \<subseteq> set (map fst (dataset_mean_consensus_score ctx')) \<and>
        (\<not> scores_in_unit (dataset_mean_consensus_score ctx) \<or>
         scores_in_unit (dataset_mean_consensus_score ctx')))"

text \<open>
  The effect of a merger on the context, from \<open>ctx\<close> to \<open>ctx'\<close>: \<open>_dataset_map\<close> is
  kept, errors other than \<open>NoMatchingItemError\<close> are appended, no dataset is dropped from
  \<open>dataset_mean_consensus_score\<close> and, when \<open>bounded\<close> holds, recorded scores in [0, 1]
  stay in [0, 1].
\<close>

definition merger_effect :: "bool \<Rightarrow> merge_ctx \<Rightarrow> merge_ctx \<Rightarrow> bool" where
  "merger_effect bounded ctx ctx' =
     (dataset_map ctx' = dataset_map ctx \<and>
      (\<exists>es. errors ctx' = errors ctx @ es \<and> list_all (\<lambda>e. \<not> is_missing_sources_error e) es) \<and>
      set (map fst (dataset_mean_consensus_score ctx))
        \<subseteq> set (map fst (dataset_mean_consensus_score ctx')) \<and>
      (\<not> bounded \<or> \<not> scores_in_unit (dataset_mean_consensus_score ctx)
         \<or> scores_in_unit (dataset_mean_consensus_score ctx')))"

text \<open>
  A stand-in for \<open>merge_annotations\<close> on the concrete inputs: all annotations of the item
  form one cluster, merged by the box merger with quorum 0.
\<close>

definition example_merge_annotations :: merge_annotations_fn where
  "example_merge_annotations ctx sources =
     (case merge_clusters (ShapeMerger_merge_cluster_shape example_externals) example_externals 0
             ctx [concat sources] of
        Inl e \<Rightarrow> Inl e
      | Inr (merged, ctx') \<Rightarrow> Inr (ctx', merged))"

text \<open>
  A stand-in for \<open>merge_annotations\<close> on items that hold label annotations only: the
  cluster of \<open>LabelMatcher.match_annotations\<close> is merged by \<open>LabelMerger.merge_clusters\<close> with
  the given quorum, and every merged label is a new \<open>Label\<close> annotation that carries its
  score.
\<close>

definition label_merge_annotations :: "externals \<Rightarrow> int \<Rightarrow> merge_annotations_fn" where
  "label_merge_annotations ext quorum ctx sources =
     (case LabelMerger_merge_clusters ext quorum ctx (LabelMatcher_match_annotations sources) of
        Inl e \<Rightarrow> Inl e
      | Inr (merged, ctx') \<Rightarrow>
          Inr (ctx', map (\<lambda>(l, s). (shape_ann ALabel 0)\<lparr>label := l, score_attr := Some s\<rparr>) merged))"

text \<open>An item with the key \<open>frame\<close> holding one label annotation, of the label \<open>car\<close>.\<close>

definition label_item :: "nat \<Rightarrow> nat \<Rightarrow> dataset_item" where
  "label_item obj_id lab_id =
     \<lparr>item_obj_id = obj_id, item_key_of = (''frame'', ''''), annotations = [shape_ann ALabel lab_id]\<rparr>"

text \<open>An item with the key \<open>frame\<close> holding one box.\<close>

definition example_item :: "nat \<Rightarrow> nat \<Rightarrow> dataset_item" where
  "example_item obj_id box_id =
     \<lparr>item_obj_id = obj_id, item_key_of = (''frame'', ''''), annotations = [shape_ann ABbox box_id]\<rparr>"

section \<open>Properties of the similarity cache\<close>

lemma sort_key_py_commute: "sort_key_py (x, y) = sort_key_py (y, x)"
  by (simp add: sort_key_py_def)

text \<open>
  C3. The cached distance is symmetric and 1 on an annotation with itself: a call on \<open>(a, a)\<close>
  returns 1, and a call on \<open>(b, a)\<close> made after a call on \<open>(a, b)\<close> returns the value that call
  returned, whatever the similarity function and the cache before.
\<close>

theorem cached_distance_symmetric_reflexive:
  "fst (CachedSimilarityFunction_call sim_fn cache a a) = 1 \<and>
   fst (CachedSimilarityFunction_call sim_fn
          (snd (CachedSimilarityFunction_call sim_fn cache a b)) b a)
     = fst (CachedSimilarityFunction_call sim_fn cache a b)"
  by (auto simp: CachedSimilarityFunction_call_def Let_def sort_key_py_commute [of "ann_id b" "ann_id a"]
      split: option.splits)

section \<open>Matching input and the output confidence floor\<close>

lemma sorted_by_label_set: "sorted_by_label g = Inr s \<Longrightarrow> set s = set g"
  by (auto simp: sorted_by_label_def split: if_splits)

lemma group_by_label_set: "set (concat (group_by_label xs)) = set xs"
proof (induction xs rule: group_by_label.induct)
  case 1
  show ?case by simp
next
  case (2 a as)
  let ?P = "\<lambda>b. label b = label a"
  have "set (takeWhile ?P as) \<union> set (dropWhile ?P as) = set as"
    using set_append [of "takeWhile ?P as" "dropWhile ?P as"] by simp
  then show ?case using 2 by auto
qed

lemma instances_of_groups_set:
  "instances_of_groups groups = Inr instances \<Longrightarrow> set (concat instances) = set (concat groups)"
proof (induction groups arbitrary: instances)
  case Nil
  then show ?case by simp
next
  case (Cons g groups)
  from Cons.prems obtain s rest where s: "sorted_by_label g = Inr s"
    and rest: "instances_of_groups groups = Inr rest"
    and inst: "instances = group_by_label s @ rest"
    by (auto split: sum.splits)
  have "set (concat (group_by_label s)) = set g"
    using group_by_label_set [of s] sorted_by_label_set [OF s] by simp
  then show ?case
    using Cons.IH [OF rest] by (simp add: inst)
qed

lemma instance_pairs_members:
  "instance_pairs a_instances b_instances matched = Inr pairs
   \<Longrightarrow> set pairs \<subseteq> set (concat a_instances) \<times> set (concat b_instances)"
proof (induction matched arbitrary: pairs)
  case Nil
  then show ?case by simp
next
  case (Cons m matched)
  obtain i_a i_b where m: "m = (i_a, i_b)" by (cases m)
  from Cons.prems obtain rest where ia: "i_a < length a_instances" and ib: "i_b < length b_instances"
    and rest: "instance_pairs a_instances b_instances matched = Inr rest"
    and pairs: "pairs = List.product (a_instances ! i_a) (b_instances ! i_b) @ rest"
    unfolding m by (auto split: if_splits sum.splits)
  have "set (a_instances ! i_a) \<subseteq> set (concat a_instances)"
    using ia by (auto intro: nth_mem)
  moreover have "set (b_instances ! i_b) \<subseteq> set (concat b_instances)"
    using ib by (auto intro: nth_mem)
  ultimately show ?case
    using Cons.IH [OF rest] by (auto simp: pairs)
qed

lemma get_segmentations_set:
  "set (get_segmentations item)
     = {a \<in> set item. (atype a = APolygon \<or> atype a = AMask) \<and> \<not> get_outside a}"
  by (auto simp: get_segmentations_def get_ann_type_def)

text \<open>
  Whatever the comparator returns for the instance indices, the pairs that the polygon
  matcher returns are members of the instances, and the instances are built from the
  polygons and masks that are not outside.
\<close>

lemma polygon_matches_from_segmentations:
  assumes inst: "\<And>xs. set (concat (find_instances xs)) \<subseteq> set xs"
    and poly: "PolygonMatcher_match_annotations_two_sources get_item_media_dims find_instances
                 match_instances item_a item_b = Inr matched"
  shows "set matched \<subseteq> set (get_segmentations item_a) \<times> set (get_segmentations item_b)"
proof -
  from poly obtain a_instances b_instances where
    a: "instances_of_groups (find_instances (get_segmentations item_a)) = Inr a_instances"
    and b: "instances_of_groups (find_instances (get_segmentations item_b)) = Inr b_instances"
    and p: "instance_pairs a_instances b_instances
              (fst (match_instances APolygon item_a item_b
                      (Some [0..<length a_instances]) (Some [0..<length b_instances]))) = Inr matched"
    unfolding PolygonMatcher_match_annotations_two_sources_def
    by (auto split: list.splits sum.splits)
  have "set (concat a_instances) \<subseteq> set (get_segmentations item_a)"
    using instances_of_groups_set [OF a] inst by simp
  moreover have "set (concat b_instances) \<subseteq> set (get_segmentations item_b)"
    using instances_of_groups_set [OF b] inst by simp
  ultimately show ?thesis
    using instance_pairs_members [OF p] by blast
qed

text \<open>
  The skeletons whose point sets the skeleton matcher hands to the comparator are those with
  a point that is not absent; every object handed over is the point set of its skeleton.
\<close>

lemma skeleton_source_points_kept:
  "map snd (skeleton_source_points info new_id source)
     = filter (\<lambda>s. list_ex (\<lambda>v. v \<noteq> Absent)
                      (mp_visibility (merge_skeleton_points new_id (info (label s)) s))) source"
  by (induction source) (simp_all add: Let_def list_all_iff list_ex_iff)

lemma skeleton_source_points_objs:
  "map fst (skeleton_source_points info new_id source)
     = map (\<lambda>s. merge_skeleton_points new_id (info (label s)) s)
         (map snd (skeleton_source_points info new_id source))"
  by (induction source) (simp_all add: Let_def)

lemma mixed_sources_points:
  "PointsMatcher_match_annotations_two_sources zip_match_segments mixed_source_a mixed_source_b
     = [(shape_ann APoints 10, shape_ann APoints 21)]"
  by (simp add: PointsMatcher_match_annotations_two_sources_def zip_match_segments_def
      mixed_source_a_def mixed_source_b_def get_ann_type_def get_outside_def shape_ann_def)

lemma mixed_sources_polygons:
  "PolygonMatcher_match_annotations_two_sources example_media_dims single_instances zip_match_objs
       mixed_source_a mixed_source_b
     = Inr [(shape_ann APolygon 12, shape_ann AMask 23)]"
  by (simp add: PolygonMatcher_match_annotations_two_sources_def zip_match_objs_def
      mixed_source_a_def mixed_source_b_def example_media_dims_def single_instances_def
      get_segmentations_def get_ann_type_def get_outside_def shape_ann_def sorted_by_label_def)

text \<open>
  C10 (amended). \<open>_get_ann_type\<close> keeps exactly the annotations of the type that are not
  outside, for every type and annotation list. The points matcher hands these lists to the
  comparator as the objects to match, and the polygon and mask matcher builds its instances
  from them, so that neither returns a pair with an outside annotation (for a comparator
  that matches only the objects it is given, and with datumaro's \<open>find_instances\<close> grouping
  only the annotations it is given). The box and the polyline matcher name no objects to match
  and hand both lists to the comparator as they are. The skeleton matcher hands over the
  point sets of exactly the skeletons with a point that is not absent, whatever their
  \<open>"outside"\<close> attribute.
\<close>

theorem outside_excluded_where_type_filter_applies:
  assumes objs: "\<And>t ia ib ao bo. set (fst (match_segments t ia ib (Some ao) (Some bo))) \<subseteq> set ao \<times> set bo"
    and inst: "\<And>xs. set (concat (find_instances xs)) \<subseteq> set xs"
    and poly: "PolygonMatcher_match_annotations_two_sources get_item_media_dims find_instances
                 match_instances item_a item_b = Inr matched"
  shows "set (get_ann_type t item) = {a \<in> set item. atype a = t \<and> \<not> get_outside a} \<and>
         (\<forall>a \<in> set item. get_outside a \<longrightarrow> a \<notin> set (get_ann_type t item)) \<and>
         PointsMatcher_match_annotations_two_sources match_segments item_a item_b
           = fst (match_segments APoints item_a item_b
                    (Some (get_ann_type APoints item_a)) (Some (get_ann_type APoints item_b))) \<and>
         (\<forall>(a, b) \<in> set (PointsMatcher_match_annotations_two_sources match_segments item_a item_b).
            \<not> get_outside a \<and> \<not> get_outside b \<and> a \<in> set item_a \<and> b \<in> set item_b) \<and>
         (\<forall>(a, b) \<in> set matched.
            \<not> get_outside a \<and> \<not> get_outside b \<and> a \<in> set item_a \<and> b \<in> set item_b \<and>
            (atype a = APolygon \<or> atype a = AMask) \<and> (atype b = APolygon \<or> atype b = AMask)) \<and>
         BboxMatcher_match_annotations_two_sources match_segments item_a item_b
           = fst (match_segments ABbox item_a item_b None None) \<and>
         LineMatcher_match_annotations_two_sources match_segments item_a item_b
           = fst (match_segments APolyline item_a item_b None None) \<and>
         map snd (skeleton_source_points get_skeleton_info new_id source)
           = filter (\<lambda>s. list_ex (\<lambda>v. v \<noteq> Absent)
                       (mp_visibility (merge_skeleton_points new_id (get_skeleton_info (label s)) s)))
               source"
proof -
  have filt: "set (get_ann_type t item) = {a \<in> set item. atype a = t \<and> \<not> get_outside a}"
    by (auto simp: get_ann_type_def)
  have none: "\<forall>a \<in> set item. get_outside a \<longrightarrow> a \<notin> set (get_ann_type t item)"
    by (simp add: get_ann_type_def)
  have pts_eq: "PointsMatcher_match_annotations_two_sources match_segments item_a item_b
           = fst (match_segments APoints item_a item_b
                    (Some (get_ann_type APoints item_a)) (Some (get_ann_type APoints item_b)))"
    by (simp add: PointsMatcher_match_annotations_two_sources_def Let_def)
  have in_objs: "set (PointsMatcher_match_annotations_two_sources match_segments item_a item_b)
      \<subseteq> set (get_ann_type APoints item_a) \<times> set (get_ann_type APoints item_b)"
    unfolding pts_eq by (rule objs)
  have pts: "\<forall>(a, b) \<in> set (PointsMatcher_match_annotations_two_sources match_segments item_a item_b).
            \<not> get_outside a \<and> \<not> get_outside b \<and> a \<in> set item_a \<and> b \<in> set item_b"
    using in_objs by (auto simp: get_ann_type_def)
  have segs: "\<forall>(a, b) \<in> set matched.
            \<not> get_outside a \<and> \<not> get_outside b \<and> a \<in> set item_a \<and> b \<in> set item_b \<and>
            (atype a = APolygon \<or> atype a = AMask) \<and> (atype b = APolygon \<or> atype b = AMask)"
    using polygon_matches_from_segmentations [OF inst poly]
    unfolding get_segmentations_set by blast
  have box: "BboxMatcher_match_annotations_two_sources match_segments item_a item_b
           = fst (match_segments ABbox item_a item_b None None)"
    by (simp add: BboxMatcher_match_annotations_two_sources_def)
  have line: "LineMatcher_match_annotations_two_sources match_segments item_a item_b
           = fst (match_segments APolyline item_a item_b None None)"
    by (simp add: LineMatcher_match_annotations_two_sources_def)
  show ?thesis
    using filt none pts_eq pts segs box line skeleton_source_points_kept
    by (intro conjI)
qed

theorem outside_excluded_where_type_filter_applies_witness:
  "get_ann_type APoints mixed_source_a = [shape_ann APoints 10] \<and>
   PointsMatcher_match_annotations_two_sources zip_match_segments mixed_source_a mixed_source_b
     = [(shape_ann APoints 10, shape_ann APoints 21)] \<and>
   PolygonMatcher_match_annotations_two_sources example_media_dims single_instances zip_match_objs
       mixed_source_a mixed_source_b
     = Inr [(shape_ann APolygon 12, shape_ann AMask 23)] \<and>
   list_all (\<lambda>(a, b). \<not> get_outside a \<and> \<not> get_outside b)
     [(shape_ann APoints 10, shape_ann APoints 21), (shape_ann APolygon 12, shape_ann AMask 23)] \<and>
   map snd (skeleton_source_points example_skeleton_info example_new_id
              [example_skeleton 10 None Visible, example_skeleton 11 None Absent])
     = [example_skeleton 10 None Visible]"
proof -
  have sub: "\<And>t ia ib ao bo.
      set (fst (zip_match_segments t ia ib (Some ao) (Some bo))) \<subseteq> set ao \<times> set bo"
    by (auto simp: zip_match_segments_def dest: set_zip_leftD set_zip_rightD)
  have inst: "\<And>xs. set (concat (single_instances xs)) \<subseteq> set xs"
    by (auto simp: single_instances_def)
  have kept: "get_ann_type APoints mixed_source_a = [shape_ann APoints 10]"
    by (simp add: mixed_source_a_def get_ann_type_def get_outside_def shape_ann_def)
  have skeletons: "map snd (skeleton_source_points example_skeleton_info example_new_id
              [example_skeleton 10 None Visible, example_skeleton 11 None Absent])
     = [example_skeleton 10 None Visible]"
    by (simp add: example_skeleton_def example_skeleton_info_def example_new_id_def
        merge_skeleton_points_def Let_def)
  note applied = outside_excluded_where_type_filter_applies
      [where match_segments = zip_match_segments and find_instances = single_instances
        and t = APoints and item = mixed_source_a
        and get_skeleton_info = example_skeleton_info and new_id = example_new_id
        and source = "[example_skeleton 10 None Visible, example_skeleton 11 None Absent]",
       OF sub inst mixed_sources_polygons]
  have pairs: "\<forall>(a, b) \<in> set (PointsMatcher_match_annotations_two_sources zip_match_segments
                               mixed_source_a mixed_source_b).
      \<not> get_outside a \<and> \<not> get_outside b \<and> a \<in> set mixed_source_a \<and> b \<in> set mixed_source_b"
    using applied by blast
  have inside: "list_all (\<lambda>(a, b). \<not> get_outside a \<and> \<not> get_outside b)
     [(shape_ann APoints 10, shape_ann APoints 21), (shape_ann APolygon 12, shape_ann AMask 23)]"
    using pairs by (simp add: mixed_sources_points get_outside_def shape_ann_def)
  show ?thesis
    by (intro conjI) (rule kept mixed_sources_points mixed_sources_polygons inside skeletons)+
qed

text \<open>
  C10 as stated fails for skeletons, boxes and polylines. A skeleton whose \<open>"outside"\<close>
  attribute is true and whose point is visible: its point set is among the objects that the
  skeleton matcher hands to the comparator, and a comparator that pairs the objects it is
  given returns it matched. A box whose \<open>"outside"\<close> attribute is true: the box matcher
  hands the list with it to the comparator and names no objects, and a comparator that
  pairs what it is handed returns the box matched.
\<close>

theorem outside_annotations_in_matching_input:
  "get_outside (example_skeleton 10 (Some True) Visible) \<and>
   map fst (skeleton_source_points example_skeleton_info example_new_id
              [example_skeleton 10 (Some True) Visible])
     = [\<lparr>mp_id = 110, mp_points = [0, 0], mp_visibility = [Visible], mp_label = Some 0\<rparr>] \<and>
   SkeletonMatcher_match_annotations_two_sources example_skeleton_info example_new_id
       zip_match_points [] [example_skeleton 10 (Some True) Visible] [example_skeleton 20 None Visible]
     = Inr ([(example_skeleton 10 (Some True) Visible, example_skeleton 20 None Visible)], []) \<and>
   get_outside ((shape_ann ABbox 10)\<lparr>outside_attr := Some True\<rparr>) \<and>
   BboxMatcher_match_annotations_two_sources zip_match_segments
       [(shape_ann ABbox 10)\<lparr>outside_attr := Some True\<rparr>] [shape_ann ABbox 20]
     = [((shape_ann ABbox 10)\<lparr>outside_attr := Some True\<rparr>, shape_ann ABbox 20)]"
  by (simp add: SkeletonMatcher_match_annotations_two_sources_def zip_match_points_def
      example_skeleton_def example_skeleton_info_def example_new_id_def merge_skeleton_points_def
      BboxMatcher_match_annotations_two_sources_def zip_match_segments_def get_outside_def
      shape_ann_def Let_def)

text \<open>
  C7. Of the merged annotations of an item, \<open>merge_items\<close> returns exactly those whose score
  (1 when the attribute is absent) is at least \<open>output_conf_thresh\<close>, each tagged with the
  source \<open>"consensus"\<close>: none below the floor is in the returned item. This holds for every
  \<open>merge_annotations\<close>, wherever it returns the merged annotations.
\<close>

theorem merge_items_output_floor:
  assumes "items \<noteq> []"
    and "ma (index_annotations ctx items) (item_sources items) = Inr (ctx', merged)"
  shows "\<exists>item.
      merge_items thresh ma ctx items = Inr (item, ctx') \<and>
      annotations item = map tag_consensus (filter (\<lambda>a. thresh \<le> get_score 1 a) merged) \<and>
      (\<forall>a \<in> set merged.
         (get_score 1 a < thresh \<longrightarrow> tag_consensus a \<notin> set (annotations item) \<and> a \<notin> set (annotations item)) \<and>
         (thresh \<le> get_score 1 a \<longrightarrow> tag_consensus a \<in> set (annotations item))) \<and>
      (\<forall>r \<in> set (annotations item). thresh \<le> get_score 1 r \<and> source_attr r = Some ''consensus'')"
proof -
  obtain first rest where items: "items = first # rest"
    using assms(1) by (cases items) auto
  have score_tag: "\<And>a. get_score 1 (tag_consensus a) = get_score 1 a"
    by (simp add: get_score_def tag_consensus_def)
  have eq: "merge_items thresh ma ctx items
      = Inr ((snd first)\<lparr>annotations := map tag_consensus (filter (\<lambda>a. thresh \<le> get_score 1 a) merged)\<rparr>, ctx')"
    using assms(2) unfolding merge_items_def items [symmetric]
    by (simp add: items)
  have below: "\<And>a. get_score 1 a < thresh \<Longrightarrow>
      tag_consensus a \<notin> tag_consensus ` {a \<in> set merged. thresh \<le> get_score 1 a}
      \<and> a \<notin> tag_consensus ` {a \<in> set merged. thresh \<le> get_score 1 a}"
    using score_tag by (metis (mono_tags, lifting) imageE mem_Collect_eq not_le)
  have src_tag: "\<And>a. source_attr (tag_consensus a) = Some ''consensus''"
    by (simp add: tag_consensus_def)
  show ?thesis
    using eq below
    by (auto simp: score_tag src_tag)
qed

theorem merge_items_output_floor_witness:
  "merge_items (1/2) (\<lambda>ctx sources. Inr (ctx, [(shape_ann ABbox 10)\<lparr>score_attr := Some (1/4)\<rparr>,
                                                 (shape_ann ABbox 20)\<lparr>score_attr := Some (3/4)\<rparr>]))
     (initial_ctx [100]) [(100, \<lparr>item_obj_id = 7, item_key_of = (''frame'', ''''), annotations = []\<rparr>)]
   = Inr (\<lparr>item_obj_id = 7, item_key_of = (''frame'', ''''),
            annotations = [(shape_ann ABbox 20)\<lparr>score_attr := Some (3/4), source_attr := Some ''consensus''\<rparr>]\<rparr>,
          initial_ctx [100])"
  using merge_items_output_floor
    [where items = "[(100, \<lparr>item_obj_id = 7, item_key_of = (''frame'', ''''), annotations = []\<rparr>)]"
      and thresh = "1/2"
      and ma = "\<lambda>ctx sources. Inr (ctx, [(shape_ann ABbox 10)\<lparr>score_attr := Some (1/4)\<rparr>,
                                            (shape_ann ABbox 20)\<lparr>score_attr := Some (3/4)\<rparr>])"
      and ctx = "initial_ctx [100]" and ctx' = "initial_ctx [100]"
      and merged = "[(shape_ann ABbox 10)\<lparr>score_attr := Some (1/4)\<rparr>,
                     (shape_ann ABbox 20)\<lparr>score_attr := Some (3/4)\<rparr>]"]
  by (simp add: merge_items_def get_score_def tag_consensus_def shape_ann_def index_annotations_def
      item_sources_def initial_ctx_def)

lemma merge_items_raises:
  "items \<noteq> [] \<Longrightarrow> ma (index_annotations ctx items) (item_sources items) = Inl e
   \<Longrightarrow> merge_items thresh ma ctx items = Inl e"
  by (cases items) (simp_all add: merge_items_def)

section \<open>The cluster builder on concrete sources\<close>

lemma shape_ann_id [simp]: "ann_id (shape_ann t i) = i"
  by (simp add: shape_ann_def)

lemma star_id_segm:
  "id_segm_of [[shape_ann ABbox 10], [shape_ann ABbox 20], [shape_ann ABbox 30]] =
     [(10, (shape_ann ABbox 10, 0)), (20, (shape_ann ABbox 20, 1)), (30, (shape_ann ABbox 30, 2))]"
  by (simp add: id_segm_of_def enumerate_eq_zip upt_rec)

lemma star_grow:
  "grow_cluster pick star_distance (1/2)
     [(10, (shape_ann ABbox 10, 0)), (20, (shape_ann ABbox 20, Suc 0)), (30, (shape_ann ABbox 30, 2))]
     [(10, [20, 30]), (20, []), (30, [])] [] [] [10]
   \<in> {Inr ([10, 20, 30], [10, 20, 30]), Inr ([10, 30, 20], [10, 30, 20])}"
proof -
  have "pick [20, 30::nat] mod Suc (Suc 0) < Suc (Suc 0)" by simp
  then consider "pick [20, 30::nat] mod Suc (Suc 0) = 0" | "pick [20, 30::nat] mod Suc (Suc 0) = Suc 0"
    by linarith
  then show ?thesis
  proof cases
    case 1
    then show ?thesis
      by (simp add: grow_cluster.simps [where to_visit = "[]"] grow_cluster.simps [where to_visit = "[10]"]
          grow_cluster.simps [where to_visit = "[30]"] grow_cluster.simps [where to_visit = "[20, 30]"]
          is_close_enough_def has_same_source_def set_add_def star_distance_def)
  next
    case 2
    then show ?thesis
      by (simp add: grow_cluster.simps [where to_visit = "[]"] grow_cluster.simps [where to_visit = "[10]"]
          grow_cluster.simps [where to_visit = "[20]"] grow_cluster.simps [where to_visit = "[20, 30]"]
          is_close_enough_def has_same_source_def set_add_def star_distance_def)
  qed
qed

text \<open>
  C2 (the code departs from it). With \<open>cluster_dist = 1/2\<close>, three sources of one box each
  and the first box matched with both others, \<open>match_annotations\<close> returns the three boxes
  as one cluster, whichever member \<open>to_visit.pop()\<close> takes, although the second and third
  box have similarity 3/10: \<open>_is_close_enough\<close> compares a candidate with the members
  already in \<open>cluster\<close>, not with those waiting in \<open>to_visit\<close>.
\<close>

theorem tightness_violated_by_pending_members:
  "match_annotations pick star_distance star_match2 (1/2) (1/2)
      [[shape_ann ABbox 10], [shape_ann ABbox 20], [shape_ann ABbox 30]]
     \<in> {Inr [[shape_ann ABbox 10, shape_ann ABbox 20, shape_ann ABbox 30]],
         Inr [[shape_ann ABbox 10, shape_ann ABbox 30, shape_ann ABbox 20]]} \<and>
   star_distance (shape_ann ABbox 20) (shape_ann ABbox 30) < 1/2 \<and>
   star_distance (shape_ann ABbox 30) (shape_ann ABbox 20) < 1/2"
  using star_grow [of pick]
  by (auto simp: match_annotations_def star_id_segm star_match2_def Let_def star_distance_def)

lemma instance_id_segm:
  "id_segm_of [[shape_ann APolygon 10], [shape_ann APolygon 20, shape_ann APolygon 21]] =
     [(10, (shape_ann APolygon 10, 0)), (20, (shape_ann APolygon 20, 1)), (21, (shape_ann APolygon 21, 1))]"
  by (simp add: id_segm_of_def enumerate_eq_zip upt_rec)

lemma instance_grow:
  "grow_cluster pick instance_distance (1/2)
     [(10, (shape_ann APolygon 10, 0)), (20, (shape_ann APolygon 20, Suc 0)), (21, (shape_ann APolygon 21, Suc 0))]
     [(10, [20, 21]), (20, []), (21, [])] [] [] [10]
   \<in> {Inr ([10, 20, 21], [10, 20, 21]), Inr ([10, 21, 20], [10, 21, 20])}"
proof -
  have "pick [20, 21::nat] mod Suc (Suc 0) < Suc (Suc 0)" by simp
  then consider "pick [20, 21::nat] mod Suc (Suc 0) = 0" | "pick [20, 21::nat] mod Suc (Suc 0) = Suc 0"
    by linarith
  then show ?thesis
  proof cases
    case 1
    then show ?thesis
      by (simp add: grow_cluster.simps [where to_visit = "[]"] grow_cluster.simps [where to_visit = "[10]"]
          grow_cluster.simps [where to_visit = "[21]"] grow_cluster.simps [where to_visit = "[20, 21]"]
          is_close_enough_def has_same_source_def set_add_def instance_distance_def)
  next
    case 2
    then show ?thesis
      by (simp add: grow_cluster.simps [where to_visit = "[]"] grow_cluster.simps [where to_visit = "[10]"]
          grow_cluster.simps [where to_visit = "[20]"] grow_cluster.simps [where to_visit = "[20, 21]"]
          is_close_enough_def has_same_source_def set_add_def instance_distance_def)
  qed
qed

lemma chain_id_segm:
  "id_segm_of [[shape_ann ABbox 10], [shape_ann ABbox 20], [shape_ann ABbox 30, shape_ann ABbox 31]] =
     [(10, (shape_ann ABbox 10, 0)), (20, (shape_ann ABbox 20, 1)),
      (30, (shape_ann ABbox 30, 2)), (31, (shape_ann ABbox 31, 2))]"
  by (simp add: id_segm_of_def enumerate_eq_zip upt_rec)

lemma chain_grow:
  "grow_cluster (\<lambda>to_visit. 0) chain_distance (1/2)
     [(10, (shape_ann ABbox 10, 0)), (20, (shape_ann ABbox 20, Suc 0)),
      (30, (shape_ann ABbox 30, 2)), (31, (shape_ann ABbox 31, 2))]
     [(10, [20, 30]), (20, [31]), (30, []), (31, [])] [] [] [10]
   = Inr ([10, 20, 30, 31], [10, 20, 30, 31])"
  by (simp add: grow_cluster.simps [where to_visit = "[]"] grow_cluster.simps [where to_visit = "[10]"]
      grow_cluster.simps [where to_visit = "[20, 30]"] grow_cluster.simps [where to_visit = "[30, 31]"]
      grow_cluster.simps [where to_visit = "[31]"]
      is_close_enough_def has_same_source_def set_add_def chain_distance_def sort_key_py_def)

text \<open>
  C1 (the code departs from it). \<open>_has_same_source\<close> too reads only \<open>cluster\<close>. Two
  polygons of one source that are both matched with a polygon of another source enter one
  cluster, whichever member \<open>pop\<close> takes; and with one-to-one matchings of boxes, when
  \<open>pop\<close> takes the member added first, boxes 30 and 31 of the third source enter the
  cluster of boxes 10 and 20.
\<close>

theorem same_source_members_in_one_cluster:
  "match_annotations pick instance_distance instance_match2 (1/2) (1/2)
      [[shape_ann APolygon 10], [shape_ann APolygon 20, shape_ann APolygon 21]]
     \<in> {Inr [[shape_ann APolygon 10, shape_ann APolygon 20, shape_ann APolygon 21]],
         Inr [[shape_ann APolygon 10, shape_ann APolygon 21, shape_ann APolygon 20]]} \<and>
   source_of [[shape_ann APolygon 10], [shape_ann APolygon 20, shape_ann APolygon 21]] (shape_ann APolygon 20) = Some 1 \<and>
   source_of [[shape_ann APolygon 10], [shape_ann APolygon 20, shape_ann APolygon 21]] (shape_ann APolygon 21) = Some 1 \<and>
   match_annotations (\<lambda>to_visit. 0) chain_distance chain_match2 (1/2) (1/2)
      [[shape_ann ABbox 10], [shape_ann ABbox 20], [shape_ann ABbox 30, shape_ann ABbox 31]]
     = Inr [[shape_ann ABbox 10, shape_ann ABbox 20, shape_ann ABbox 30, shape_ann ABbox 31]] \<and>
   source_of [[shape_ann ABbox 10], [shape_ann ABbox 20], [shape_ann ABbox 30, shape_ann ABbox 31]] (shape_ann ABbox 30) = Some 2 \<and>
   source_of [[shape_ann ABbox 10], [shape_ann ABbox 20], [shape_ann ABbox 30, shape_ann ABbox 31]] (shape_ann ABbox 31) = Some 2"
proof -
  have a: "match_annotations pick instance_distance instance_match2 (1/2) (1/2)
      [[shape_ann APolygon 10], [shape_ann APolygon 20, shape_ann APolygon 21]]
     \<in> {Inr [[shape_ann APolygon 10, shape_ann APolygon 20, shape_ann APolygon 21]],
         Inr [[shape_ann APolygon 10, shape_ann APolygon 21, shape_ann APolygon 20]]}"
    using instance_grow [of pick]
    by (auto simp: match_annotations_def instance_id_segm instance_match2_def Let_def)
  have b: "match_annotations (\<lambda>to_visit. 0) chain_distance chain_match2 (1/2) (1/2)
      [[shape_ann ABbox 10], [shape_ann ABbox 20], [shape_ann ABbox 30, shape_ann ABbox 31]]
     = Inr [[shape_ann ABbox 10, shape_ann ABbox 20, shape_ann ABbox 30, shape_ann ABbox 31]]"
    by (simp add: match_annotations_def chain_id_segm chain_match2_def Let_def chain_grow)
  show ?thesis
    using a b by (simp add: source_of_def instance_id_segm chain_id_segm)
qed

section \<open>The label merger\<close>

text \<open>
  When every label reaches the quorum, each is emitted with its votes over the dataset count
  and no error is recorded; as soon as one label is below the quorum, the computation of its
  sources raises TypeError and the merger returns nothing.
\<close>

lemma label_votes_loop_below_quorum:
  "cluster \<noteq> [] \<Longrightarrow> 0 < dataset_count ctx \<Longrightarrow> list_ex (\<lambda>(n, c). int c < quorum) rest
   \<Longrightarrow> label_votes_loop ext quorum cluster votes ctx merged rest = Inl TypeError"
proof (induction rest arbitrary: merged)
  case Nil
  then show ?case by simp
next
  case (Cons e rest)
  obtain n c where e: "e = (n, c)" by (cases e)
  show ?case
  proof (cases "int c < quorum")
    case True
    with Cons.prems e show ?thesis
      by (cases cluster) (auto simp: failed_vote_sources_def)
  next
    case False
    with Cons e show ?thesis by auto
  qed
qed

lemma label_votes_loop_all_reach_quorum:
  "0 < dataset_count ctx \<Longrightarrow> list_all (\<lambda>(n, c). quorum \<le> int c) rest
   \<Longrightarrow> label_votes_loop ext quorum cluster votes ctx merged rest
       = Inr (merged @ map (\<lambda>(n, c). (get_label_id ext (Some n), real c / real (dataset_count ctx))) rest, ctx)"
  by (induction rest arbitrary: merged) auto

text \<open>
  C6 (the code departs from it). Three sources label an item: two \<open>car\<close>, one
  \<open>truck\<close>, with quorum 3. Both labels are below the quorum; the label merger neither
  drops them nor records a \<open>FailedLabelVotingError\<close>: it raises TypeError.
\<close>

theorem label_below_quorum_raises:
  "LabelMerger_merge_clusters example_externals 3 (initial_ctx [100, 200, 300])
     [[shape_ann ALabel 10, shape_ann ALabel 20, (shape_ann ALabel 30)\<lparr>label := Some 1\<rparr>]]
   = Inl TypeError \<and>
   tally_label_votes example_externals []
     [shape_ann ALabel 10, shape_ann ALabel 20, (shape_ann ALabel 30)\<lparr>label := Some 1\<rparr>]
   = [(''car'', 2), (''truck'', 1)]"
  by (simp add: LabelMerger_merge_clusters_def example_externals_def shape_ann_def
      failed_vote_sources_def Let_def)

section \<open>The label vote of the shape mergers\<close>

lemma map_of_dict_set: "map_of (dict_set d k v) = (map_of d)(k \<mapsto> v)"
  by (induction d) (auto simp: fun_eq_iff)

lemma keys_dict_set: "map fst (dict_set d k v) = set_add (map fst d) k"
proof (induction d)
  case Nil
  show ?case by (simp add: set_add_def)
next
  case (Cons e d)
  obtain k' v' where e: "e = (k', v')" by (cases e)
  show ?case
  proof (cases "k' = k")
    case True
    with e show ?thesis by (simp add: set_add_def)
  next
    case False
    have "set_add (k' # map fst d) k = k' # set_add (map fst d) k"
      using False by (simp add: set_add_def)
    with False e Cons.IH show ?thesis by simp
  qed
qed

lemma distinct_set_add: "distinct xs \<Longrightarrow> distinct (set_add xs x)"
  by (simp add: set_add_def)

lemma set_set_add: "set (set_add xs x) = insert x (set xs)"
  by (auto simp: set_add_def)

lemma distinct_fold_set_add: "distinct acc \<Longrightarrow> distinct (fold (\<lambda>x acc. set_add acc x) xs acc)"
  by (induction xs arbitrary: acc) (auto simp: distinct_set_add)

lemma set_fold_set_add: "set (fold (\<lambda>x acc. set_add acc x) xs acc) = set acc \<union> set xs"
  by (induction xs arbitrary: acc) (auto simp: set_set_add)

lemma seen_order_set: "set (seen_order xs) = set xs" and seen_order_distinct: "distinct (seen_order xs)"
  by (simp_all add: seen_order_def set_fold_set_add distinct_fold_set_add)

lemma tally_shape_votes_keys:
  "map fst (tally_shape_votes ext votes cluster)
     = fold (\<lambda>x acc. set_add acc x) (map (label_name ext) cluster) (map fst votes)"
  by (induction cluster arbitrary: votes) (simp_all add: Let_def keys_dict_set label_name_def)

lemma tally_shape_votes_map_of:
  "map_of (tally_shape_votes ext votes cluster) n =
     (if map_of votes n = None \<and> n \<notin> label_name ext ` set cluster then None
      else Some (fst (case map_of votes n of None \<Rightarrow> (0, 0) | Some st \<Rightarrow> st)
                   + accumulated_confidence ext cluster n,
                 snd (case map_of votes n of None \<Rightarrow> (0, 0) | Some st \<Rightarrow> st)
                   + supporting_count ext cluster n))"
proof (induction cluster arbitrary: votes)
  case Nil
  then show ?case
    by (auto simp: accumulated_confidence_def supporting_count_def split: option.splits)
next
  case (Cons s cluster)
  show ?case
    by (simp add: Let_def Cons.IH map_of_dict_set label_name_def [symmetric]
        accumulated_confidence_def supporting_count_def split: option.splits)
qed

lemma alist_from_keys:
  "distinct (map fst l) \<Longrightarrow> l = map (\<lambda>k. (k, the (map_of l k))) (map fst l)"
proof (induction l)
  case Nil
  then show ?case by simp
next
  case (Cons e l)
  obtain k v where e: "e = (k, v)" by (cases e)
  from Cons.prems e have k: "k \<notin> fst ` set l" by auto
  have "map (\<lambda>k'. (k', the (map_of ((k, v) # l) k'))) (map fst l)
      = map (\<lambda>k'. (k', the (map_of l k'))) (map fst l)"
    using k by (intro map_cong) auto
  with Cons e show ?case by simp
qed

lemma tally_shape_votes_eq:
  "tally_shape_votes ext [] cluster =
     map (\<lambda>n. (n, accumulated_confidence ext cluster n, supporting_count ext cluster n))
       (seen_order (map (label_name ext) cluster))"
proof -
  let ?l = "tally_shape_votes ext [] cluster"
  have keys: "map fst ?l = seen_order (map (label_name ext) cluster)"
    by (simp add: tally_shape_votes_keys seen_order_def)
  then have d: "distinct (map fst ?l)" by (simp add: seen_order_distinct)
  have "?l = map (\<lambda>k. (k, the (map_of ?l k))) (map fst ?l)"
    by (rule alist_from_keys [OF d])
  also have "\<dots> = map (\<lambda>n. (n, accumulated_confidence ext cluster n, supporting_count ext cluster n))
       (seen_order (map (label_name ext) cluster))"
    unfolding keys
    by (intro map_cong refl) (simp add: tally_shape_votes_map_of seen_order_set)
  finally show ?thesis .
qed

lemma max_first_split:
  "\<exists>pre post. v # vs = pre @ max_first key v vs # post \<and>
     (\<forall>x \<in> set pre. key x < key (max_first key v vs)) \<and>
     (\<forall>x \<in> set post. key x \<le> key (max_first key v vs))"
proof (induction vs arbitrary: v)
  case Nil
  show ?case
    by (rule exI [of _ "[]"], rule exI [of _ "[]"]) simp
next
  case (Cons x xs)
  show ?case
  proof (cases "key v < key x")
    case True
    define m where "m = max_first key x xs"
    have mf: "max_first key v (x # xs) = m" using True by (simp add: m_def)
    obtain pre post where s: "x # xs = pre @ m # post"
      and lt: "\<forall>y \<in> set pre. key y < key m"
      and le: "\<forall>y \<in> set post. key y \<le> key m"
      using Cons.IH [of x] unfolding m_def by blast
    have "x \<in> set (pre @ m # post)" using s by (metis list.set_intros(1))
    then have "key x \<le> key m" using lt le by auto
    then have kv: "key v < key m" using True by simp
    have e: "v # x # xs = (v # pre) @ m # post" using s by simp
    show ?thesis
      unfolding mf
      by (rule exI [of _ "v # pre"], rule exI [of _ post]) (simp only: e, simp add: kv lt le)
  next
    case False
    define m where "m = max_first key v xs"
    have mf: "max_first key v (x # xs) = m" using False by (simp add: m_def)
    obtain pre post where s: "v # xs = pre @ m # post"
      and lt: "\<forall>y \<in> set pre. key y < key m"
      and le: "\<forall>y \<in> set post. key y \<le> key m"
      using Cons.IH [of v] unfolding m_def by blast
    show ?thesis
    proof (cases pre)
      case Nil
      with s have m: "m = v" and p: "post = xs" by simp_all
      have le': "\<forall>y \<in> set (x # xs). key y \<le> key v"
        using le False m p by auto
      show ?thesis
        unfolding mf m
        by (rule exI [of _ "[]"], rule exI [of _ "x # xs"]) (use le' in simp)
    next
      case (Cons p ps)
      with s have pv: "p = v" and xs: "xs = ps @ m # post" by simp_all
      have "key v < key m" using lt Cons pv by simp
      then have kx: "key x < key m" and kv: "key v < key m" using False by simp_all
      have lt': "\<forall>y \<in> set ps. key y < key m" using lt Cons by simp
      have e: "v # x # xs = (v # x # ps) @ m # post" using xs by simp
      show ?thesis
        unfolding mf
        by (rule exI [of _ "v # x # ps"], rule exI [of _ post]) (simp only: e, simp add: kx kv lt' le)
    qed
  qed
qed


text \<open>
  C5. \<open>merge_cluster\<close> of a shape cluster chooses one label: the first, in the order the
  labels are first seen, among those of greatest accumulated confidence. If fewer members than
  the quorum carry it, the cluster gives no annotation and exactly one
  \<open>FailedLabelVotingError\<close> is appended to the errors; otherwise the label score is the
  accumulated confidence divided by the number of datasets, and the merged annotation (when
  the label name resolves to an id) carries label score times shape score.
\<close>

theorem merge_cluster_label_vote:
  assumes "cluster \<noteq> []" and "0 < dataset_count ctx" and "get_label_id ext None = None"
  shows "\<exists>pre w post.
     seen_order (map (label_name ext) cluster) = pre @ w # post \<and>
     (\<forall>n \<in> set pre. accumulated_confidence ext cluster n < accumulated_confidence ext cluster w) \<and>
     (\<forall>n \<in> set post. accumulated_confidence ext cluster n \<le> accumulated_confidence ext cluster w) \<and>
     (if int (supporting_count ext cluster w) < quorum
      then merge_cluster mcs ext quorum ctx cluster
             = Inr (None, ctx\<lparr>errors := errors ctx @
                      [FailedLabelVotingError (item_id ctx)
                         (ShapeVotes (tally_shape_votes ext [] cluster)) None]\<rparr>)
      else find_cluster_label ext quorum ctx cluster
             = Inr ((get_label_id ext (Some w),
                     accumulated_confidence ext cluster w / real (dataset_count ctx)), ctx)
           \<and> merge_cluster mcs ext quorum ctx cluster =
               (case get_label_id ext (Some w) of
                  None \<Rightarrow> Inr (None, ctx)
                | Some l \<Rightarrow>
                    (case mcs ctx cluster of
                       Inl e \<Rightarrow> Inl e
                     | Inr ((shape, shape_score), ctx2) \<Rightarrow>
                         Inr (Some (shape\<lparr>z_order := z_order (max_first z_order (hd cluster) (tl cluster)),
                                          label := Some l,
                                          score_attr := Some (accumulated_confidence ext cluster w
                                                               / real (dataset_count ctx) * shape_score)\<rparr>),
                              ctx2))))"
proof -
  let ?f = "\<lambda>n. (n, accumulated_confidence ext cluster n, supporting_count ext cluster n)"
  let ?order = "seen_order (map (label_name ext) cluster)"
  let ?key = "\<lambda>e::string \<times> real \<times> nat. fst (snd e)"
  have votes: "tally_shape_votes ext [] cluster = map ?f ?order"
    by (rule tally_shape_votes_eq)
  have "set ?order \<noteq> {}" using assms(1) by (simp add: seen_order_set)
  then obtain o1 os where order: "?order = o1 # os" by (cases ?order) auto
  define m where "m = max_first ?key (?f o1) (map ?f os)"
  obtain pre_v post_v where split: "?f o1 # map ?f os = pre_v @ m # post_v"
    and lt: "\<forall>x \<in> set pre_v. ?key x < ?key m"
    and le: "\<forall>x \<in> set post_v. ?key x \<le> ?key m"
    using max_first_split [of "?f o1" "map ?f os" ?key] unfolding m_def by blast
  have "map ?f ?order = pre_v @ m # post_v" using split order by simp
  then obtain pre rest where o_split: "?order = pre @ rest" and pre_v: "pre_v = map ?f pre"
    and rest: "m # post_v = map ?f rest"
    by (auto simp: map_eq_append_conv)
  from rest obtain w post where rest_eq: "rest = w # post" and m: "m = ?f w" and post_v: "post_v = map ?f post"
    by (auto simp: Cons_eq_map_conv)
  have lt': "\<forall>n \<in> set pre. accumulated_confidence ext cluster n < accumulated_confidence ext cluster w"
    using lt pre_v m by simp
  have le': "\<forall>n \<in> set post. accumulated_confidence ext cluster n \<le> accumulated_confidence ext cluster w"
    using le post_v m by simp
  have tally: "tally_shape_votes ext [] cluster = ?f o1 # map ?f os"
    using votes order by simp
  have fcl: "find_cluster_label ext quorum ctx cluster =
      Inr ((get_label_id ext (if int (supporting_count ext cluster w) < quorum then None else Some w),
            accumulated_confidence ext cluster w / real (dataset_count ctx)),
           (if int (supporting_count ext cluster w) < quorum
            then add_item_error ctx (\<lambda>i. FailedLabelVotingError i
                   (ShapeVotes (tally_shape_votes ext [] cluster)) None)
            else ctx))"
    unfolding find_cluster_label_def Let_def tally
    using assms(2) m [unfolded m_def] by simp
  have body: "(if int (supporting_count ext cluster w) < quorum
      then merge_cluster mcs ext quorum ctx cluster
             = Inr (None, ctx\<lparr>errors := errors ctx @
                      [FailedLabelVotingError (item_id ctx)
                         (ShapeVotes (tally_shape_votes ext [] cluster)) None]\<rparr>)
      else find_cluster_label ext quorum ctx cluster
             = Inr ((get_label_id ext (Some w),
                     accumulated_confidence ext cluster w / real (dataset_count ctx)), ctx)
           \<and> merge_cluster mcs ext quorum ctx cluster =
               (case get_label_id ext (Some w) of
                  None \<Rightarrow> Inr (None, ctx)
                | Some l \<Rightarrow>
                    (case mcs ctx cluster of
                       Inl e \<Rightarrow> Inl e
                     | Inr ((shape, shape_score), ctx2) \<Rightarrow>
                         Inr (Some (shape\<lparr>z_order := z_order (max_first z_order (hd cluster) (tl cluster)),
                                          label := Some l,
                                          score_attr := Some (accumulated_confidence ext cluster w
                                                               / real (dataset_count ctx) * shape_score)\<rparr>),
                              ctx2))))"
    unfolding merge_cluster_def fcl
    using assms(3) by (simp add: add_item_error_def split: option.splits sum.splits)
  show ?thesis
    using o_split [unfolded rest_eq] lt' le' body by blast
qed

theorem merge_cluster_label_vote_witness:
  "find_cluster_label example_externals 2 (initial_ctx [100, 200, 300])
      [shape_ann ABbox 10, shape_ann ABbox 20, (shape_ann ABbox 30)\<lparr>label := Some 1\<rparr>]
     = Inr ((Some 0, 2 / 3), initial_ctx [100, 200, 300]) \<and>
   merge_cluster (ShapeMerger_merge_cluster_shape example_externals) example_externals 3
      (initial_ctx [100, 200, 300])
      [shape_ann ABbox 10, shape_ann ABbox 20, (shape_ann ABbox 30)\<lparr>label := Some 1\<rparr>]
     = Inr (None, (initial_ctx [100, 200, 300])
              \<lparr>errors := [FailedLabelVotingError None
                            (ShapeVotes [(''car'', 2, 2), (''truck'', 1, 1)]) None]\<rparr>)"
  using merge_cluster_label_vote [of "[shape_ann ABbox 10, shape_ann ABbox 20, (shape_ann ABbox 30)\<lparr>label := Some 1\<rparr>]"
      "initial_ctx [100, 200, 300]" example_externals 2 "ShapeMerger_merge_cluster_shape example_externals"]
  by (simp add: find_cluster_label_def merge_cluster_def example_externals_def shape_ann_def
      initial_ctx_def dataset_count_def add_item_error_def get_score_def Let_def)

section \<open>The representative of a skeleton cluster\<close>

lemma min_first_in: "min_first key e es \<in> set (e # es)"
  by (induction es arbitrary: e) auto

lemma min_first_le_all:
  "key (min_first key e es) \<le> key e \<and> (\<forall>x \<in> set es. key (min_first key e es) \<le> key x)"
proof (induction es arbitrary: e)
  case Nil
  show ?case by simp
next
  case (Cons x xs)
  show ?case
  proof (cases "key x < key e")
    case True
    have "key (min_first key x xs) \<le> key x" and "\<forall>y \<in> set xs. key (min_first key x xs) \<le> key y"
      using Cons.IH [of x] by simp_all
    with True show ?thesis by auto
  next
    case False
    have "key (min_first key e xs) \<le> key e" and "\<forall>y \<in> set xs. key (min_first key e xs) \<le> key y"
      using Cons.IH [of e] by simp_all
    with False show ?thesis by auto
  qed
qed

lemma sum_skeleton_distance_eq:
  "sum_skeleton_distance cache s acc xs = Inr r
   \<Longrightarrow> r = acc + sum_list (map (skeleton_distance_value cache s) xs)"
proof (induction xs arbitrary: acc)
  case Nil
  then show ?case by simp
next
  case (Cons x xs)
  from Cons.prems obtain d where d: "SkeletonMatcher_distance cache s x = Inr d"
    and rest: "sum_skeleton_distance cache s (acc + d) xs = Inr r"
    by (auto split: sum.splits)
  have "skeleton_distance_value cache s x = d"
    using d by (simp add: skeleton_distance_value_def)
  with Cons.IH [OF rest] show ?case by simp
qed

lemma sum_skeleton_distance_total:
  "list_all (\<lambda>x. \<exists>d. SkeletonMatcher_distance cache s x = Inr d) xs
   \<Longrightarrow> \<exists>r. sum_skeleton_distance cache s acc xs = Inr r"
  by (induction xs arbitrary: acc) auto

lemma sum_max0_skeleton_distance_total:
  "list_all (\<lambda>x. \<exists>d. SkeletonMatcher_distance cache s x = Inr d) xs
   \<Longrightarrow> \<exists>r. sum_max0_skeleton_distance cache s acc xs = Inr r"
  by (induction xs arbitrary: acc) auto

lemma skeleton_dist_eq:
  "skeleton_dist cache cluster rest = Inr ds
   \<Longrightarrow> ds = map (\<lambda>s. sum_list (map (skeleton_distance_value cache s) cluster)
                       / real (length cluster)) rest"
proof (induction rest arbitrary: ds)
  case Nil
  then show ?case by simp
next
  case (Cons s rest)
  then show ?case
    by (auto split: sum.splits dest: sum_skeleton_distance_eq)
qed

lemma skeleton_dist_total:
  "list_all (\<lambda>s. list_all (\<lambda>x. \<exists>d. SkeletonMatcher_distance cache s x = Inr d) cluster) rest
   \<Longrightarrow> \<exists>ds. skeleton_dist cache cluster rest = Inr ds"
proof (induction rest)
  case Nil
  show ?case by simp
next
  case (Cons s rest)
  then obtain r where "sum_skeleton_distance cache s 0 cluster = Inr r"
    using sum_skeleton_distance_total [of cache s cluster 0] by auto
  moreover obtain ds where "skeleton_dist cache cluster rest = Inr ds"
    using Cons by auto
  ultimately show ?case by simp
qed

lemma sum_list_split_index:
  fixes f :: "'a \<Rightarrow> real"
  assumes "i < length xs"
  shows "sum_list (map f xs)
     = f (xs ! i) + sum_list (map (\<lambda>j. f (xs ! j)) (filter (\<lambda>j. j \<noteq> i) [0..<length xs]))"
proof -
  have "map f (map ((!) xs) [0..<length xs]) = map f xs"
    by (simp only: map_nth)
  then have "map (f \<circ> (!) xs) [0..<length xs] = map f xs"
    by (simp only: map_map)
  then have "map (\<lambda>j. f (xs ! j)) [0..<length xs] = map f xs"
    by (simp only: comp_def)
  then have "sum_list (map f xs) = sum_list (map (\<lambda>j. f (xs ! j)) [0..<length xs])"
    by (rule arg_cong [where f = sum_list, symmetric])
  also have "\<dots> = sum (\<lambda>j. f (xs ! j)) {0..<length xs}"
    by (simp add: interv_sum_list_conv_sum_set_nat)
  also have "\<dots> = f (xs ! i) + sum (\<lambda>j. f (xs ! j)) ({0..<length xs} - {i})"
    using assms by (simp add: sum.remove)
  also have "sum (\<lambda>j. f (xs ! j)) ({0..<length xs} - {i})
      = sum_list (map (\<lambda>j. f (xs ! j)) (filter (\<lambda>j. j \<noteq> i) [0..<length xs]))"
  proof -
    have "set (filter (\<lambda>j. j \<noteq> i) [0..<length xs]) = {0..<length xs} - {i}" by auto
    moreover have "distinct (filter (\<lambda>j. j \<noteq> i) [0..<length xs])" by simp
    ultimately show ?thesis
      by (metis sum_list_distinct_conv_sum_set)
  qed
  finally show ?thesis .
qed

lemma skeleton_self_distance: "skeleton_distance_value cache a a = 1"
  by (simp add: skeleton_distance_value_def SkeletonMatcher_distance_def)

lemma average_order:
  assumes "i < length cluster" and "j < length cluster"
    and "sum_list (map (skeleton_distance_value cache (cluster ! i)) cluster) / real (length cluster)
       \<le> sum_list (map (skeleton_distance_value cache (cluster ! j)) cluster) / real (length cluster)"
  shows "average_distance_to_others cache cluster i \<le> average_distance_to_others cache cluster j"
proof -
  let ?S = "\<lambda>k. sum_list (map (\<lambda>l. skeleton_distance_value cache (cluster ! k) (cluster ! l))
                 (filter (\<lambda>l. l \<noteq> k) [0..<length cluster]))"
  have ti: "sum_list (map (skeleton_distance_value cache (cluster ! i)) cluster) = 1 + ?S i"
    using sum_list_split_index [OF assms(1), of "skeleton_distance_value cache (cluster ! i)"]
    by (simp add: skeleton_self_distance)
  have tj: "sum_list (map (skeleton_distance_value cache (cluster ! j)) cluster) = 1 + ?S j"
    using sum_list_split_index [OF assms(2), of "skeleton_distance_value cache (cluster ! j)"]
    by (simp add: skeleton_self_distance)
  have "0 < length cluster" using assms(1) by linarith
  then have pos: "0 < real (length cluster)" by simp
  have "(1 + ?S i) / real (length cluster) \<le> (1 + ?S j) / real (length cluster)"
    using assms(3) unfolding ti tj .
  then have "1 + ?S i \<le> 1 + ?S j"
    using pos by (simp add: divide_le_cancel)
  then have "?S i \<le> ?S j" by simp
  then show ?thesis
    unfolding average_distance_to_others_def
    by (rule divide_right_mono) simp
qed

lemma nearest_is_medoid:
  assumes "merge_cluster_shape_nearest cache cluster = Inr rep"
  shows "\<exists>i<length cluster. rep = cluster ! i \<and>
     (\<forall>j<length cluster. average_distance_to_others cache cluster i
                            \<le> average_distance_to_others cache cluster j)"
proof -
  let ?avg = "\<lambda>s. sum_list (map (skeleton_distance_value cache s) cluster) / real (length cluster)"
  obtain ds where ds: "skeleton_dist cache cluster cluster = Inr ds"
    using assms by (auto simp: merge_cluster_shape_nearest_def split: sum.splits)
  have ds_eq: "ds = map ?avg cluster" using skeleton_dist_eq [OF ds] .
  obtain e es where en: "enumerate 0 ds = e # es"
    using assms ds by (auto simp: merge_cluster_shape_nearest_def split: list.splits)
  define m where "m = min_first snd e es"
  have rep: "rep = cluster ! fst m"
    using assms ds en by (simp add: merge_cluster_shape_nearest_def m_def)
  have "m \<in> set (enumerate 0 ds)" unfolding en m_def by (rule min_first_in)
  then have i: "fst m < length ds" and mv: "snd m = ds ! fst m"
    by (auto simp: in_set_enumerate_eq)
  have least: "\<forall>x \<in> set (enumerate 0 ds). snd m \<le> snd x"
    unfolding en m_def using min_first_le_all [of snd e es] by auto
  have len: "length ds = length cluster" using ds_eq by simp
  have "\<forall>j<length cluster. average_distance_to_others cache cluster (fst m)
                            \<le> average_distance_to_others cache cluster j"
  proof (intro allI impI)
    fix j assume j: "j < length cluster"
    then have "(j, ds ! j) \<in> set (enumerate 0 ds)"
      using len by (simp add: in_set_enumerate_eq)
    then have "ds ! fst m \<le> ds ! j" using least mv by force
    then have "?avg (cluster ! fst m) \<le> ?avg (cluster ! j)"
      using ds_eq i j len by simp
    then show "average_distance_to_others cache cluster (fst m)
                 \<le> average_distance_to_others cache cluster j"
      using average_order [of "fst m" cluster j cache] i j len by simp
  qed
  then show ?thesis using rep i len by auto
qed

lemma nearest_total:
  assumes "cluster \<noteq> []"
    and "\<forall>a \<in> set cluster. \<forall>b \<in> set cluster.
           ann_id a \<noteq> ann_id b \<longrightarrow> cache (sort_key_py (ann_id a, ann_id b)) \<noteq> None"
  shows "\<exists>rep. merge_cluster_shape_nearest cache cluster = Inr rep \<and>
     (\<exists>tot. sum_max0_skeleton_distance cache rep 0 cluster = Inr tot)"
proof -
  have all: "\<exists>d. SkeletonMatcher_distance cache a b = Inr d"
    if "a \<in> set cluster" and "b \<in> set cluster" for a b
  proof (cases "ann_id a = ann_id b")
    case True
    then show ?thesis by (simp add: SkeletonMatcher_distance_def)
  next
    case False
    then have "cache (sort_key_py (ann_id a, ann_id b)) \<noteq> None"
      using assms(2) that by blast
    with False show ?thesis
      by (auto simp: SkeletonMatcher_distance_def split: option.splits)
  qed
  then have "list_all (\<lambda>s. list_all (\<lambda>x. \<exists>d. SkeletonMatcher_distance cache s x = Inr d) cluster) cluster"
    by (simp add: list_all_iff)
  then obtain ds where ds: "skeleton_dist cache cluster cluster = Inr ds"
    using skeleton_dist_total by blast
  have "length ds = length cluster" using skeleton_dist_eq [OF ds] by simp
  then have "ds \<noteq> []" using assms(1) by auto
  then obtain d ds' where dd: "ds = d # ds'" by (cases ds) auto
  then obtain rep where rep: "merge_cluster_shape_nearest cache cluster = Inr rep"
    using ds by (simp add: merge_cluster_shape_nearest_def)
  then obtain i where "i < length cluster" "rep = cluster ! i"
    using nearest_is_medoid by blast
  then have "rep \<in> set cluster" by simp
  then have "list_all (\<lambda>x. \<exists>d. SkeletonMatcher_distance cache rep x = Inr d) cluster"
    using all by (simp add: list_all_iff)
  then show ?thesis
    using rep sum_max0_skeleton_distance_total by blast
qed

text \<open>
  C4. The representative that \<open>SkeletonMerger.merge_cluster_shape\<close> selects for a non-empty
  skeleton cluster is a member whose average distance to the other members is least, the
  distance being the value \<open>self.distance\<close> returns. The selection returns whenever every
  pair of members with different ids is in the cache.
\<close>

theorem skeleton_representative_minimises_average_distance:
  assumes "cluster \<noteq> []"
  shows "((\<forall>a \<in> set cluster. \<forall>b \<in> set cluster.
             ann_id a \<noteq> ann_id b \<longrightarrow> cache (sort_key_py (ann_id a, ann_id b)) \<noteq> None)
          \<longrightarrow> (\<exists>shape shape_score.
                 SkeletonMerger_merge_cluster_shape cache ctx cluster = Inr ((shape, shape_score), ctx))) \<and>
         (\<forall>shape shape_score ctx'.
            SkeletonMerger_merge_cluster_shape cache ctx cluster = Inr ((shape, shape_score), ctx')
            \<longrightarrow> (\<exists>i<length cluster. shape = cluster ! i \<and>
                   (\<forall>j<length cluster. average_distance_to_others cache cluster i
                                          \<le> average_distance_to_others cache cluster j)))"
proof (intro conjI impI allI)
  assume "\<forall>a \<in> set cluster. \<forall>b \<in> set cluster.
             ann_id a \<noteq> ann_id b \<longrightarrow> cache (sort_key_py (ann_id a, ann_id b)) \<noteq> None"
  then obtain rep tot where "merge_cluster_shape_nearest cache cluster = Inr rep"
    and "sum_max0_skeleton_distance cache rep 0 cluster = Inr tot"
    using nearest_total [OF assms] by blast
  then show "\<exists>shape shape_score.
      SkeletonMerger_merge_cluster_shape cache ctx cluster = Inr ((shape, shape_score), ctx)"
    by (simp add: SkeletonMerger_merge_cluster_shape_def)
next
  fix shape shape_score ctx'
  assume "SkeletonMerger_merge_cluster_shape cache ctx cluster = Inr ((shape, shape_score), ctx')"
  then have "merge_cluster_shape_nearest cache cluster = Inr shape"
    by (auto simp: SkeletonMerger_merge_cluster_shape_def split: sum.splits)
  then show "\<exists>i<length cluster. shape = cluster ! i \<and>
      (\<forall>j<length cluster. average_distance_to_others cache cluster i
                             \<le> average_distance_to_others cache cluster j)"
    by (rule nearest_is_medoid)
qed

theorem skeleton_representative_minimises_average_distance_witness:
  "SkeletonMerger_merge_cluster_shape example_cache (initial_ctx [100, 200, 300])
      [shape_ann ASkeleton 10, shape_ann ASkeleton 20, shape_ann ASkeleton 30]
     = Inr ((shape_ann ASkeleton 30, 19 / 30), initial_ctx [100, 200, 300]) \<and>
   average_distance_to_others example_cache
      [shape_ann ASkeleton 10, shape_ann ASkeleton 20, shape_ann ASkeleton 30] 2 = 9 / 20 \<and>
   average_distance_to_others example_cache
      [shape_ann ASkeleton 10, shape_ann ASkeleton 20, shape_ann ASkeleton 30] 0 = 7 / 10 \<and>
   average_distance_to_others example_cache
      [shape_ann ASkeleton 10, shape_ann ASkeleton 20, shape_ann ASkeleton 30] 1 = 13 / 20"
  using skeleton_representative_minimises_average_distance
    [of "[shape_ann ASkeleton 10, shape_ann ASkeleton 20, shape_ann ASkeleton 30]"
        example_cache "initial_ctx [100, 200, 300]"]
  by (simp add: SkeletonMerger_merge_cluster_shape_def merge_cluster_shape_nearest_def
      SkeletonMatcher_distance_def sort_key_py_def example_cache_def shape_ann_def
      average_distance_to_others_def skeleton_distance_value_def enumerate_eq_zip upt_rec)

section \<open>Items missing from some sources\<close>

lemma dict_set_fresh: "k \<notin> fst ` set d \<Longrightarrow> dict_set d k v = d @ [(k, v)]"
  by (induction d) auto

lemma dataset_map_fold:
  "distinct (map fst acc @ ds) \<Longrightarrow>
   fold (\<lambda>(i, d) m. dict_set m d i) (enumerate n ds) acc = acc @ zip ds [n..<n + length ds]"
proof (induction ds arbitrary: n acc)
  case Nil
  show ?case by simp
next
  case (Cons d ds)
  have fresh: "d \<notin> fst ` set acc" using Cons.prems by auto
  have dist: "distinct (map fst (acc @ [(d, n)]) @ ds)" using Cons.prems by auto
  have "fold (\<lambda>(i, d) m. dict_set m d i) (enumerate n (d # ds)) acc
      = fold (\<lambda>(i, d) m. dict_set m d i) (enumerate (Suc n) ds) (acc @ [(d, n)])"
    by (simp add: dict_set_fresh [OF fresh])
  also have "\<dots> = (acc @ [(d, n)]) @ zip ds [Suc n..<Suc n + length ds]"
    by (rule Cons.IH [OF dist])
  also have "\<dots> = acc @ zip (d # ds) [n..<n + length (d # ds)]"
  proof -
    have "[n..<n + length (d # ds)] = n # [Suc n..<n + length (d # ds)]"
      by (rule upt_conv_Cons) simp
    moreover have "n + length (d # ds) = Suc n + length ds" by simp
    ultimately have "[n..<n + length (d # ds)] = n # [Suc n..<Suc n + length ds]"
      by (simp only:)
    then show ?thesis by (simp only: zip_Cons_Cons append_assoc append_Cons append_Nil)
  qed
  finally show ?case .
qed

lemma initial_dataset_map:
  "distinct datasets \<Longrightarrow> dataset_map (initial_ctx datasets) = zip datasets [0..<length datasets]"
  using dataset_map_fold [of "[]" datasets 0] by (simp add: initial_ctx_def)

lemma dataset_index_lookup:
  "distinct datasets \<Longrightarrow> i < length datasets
   \<Longrightarrow> map_of (zip datasets [0..<length datasets]) (datasets ! i) = Some i"
  using map_of_zip_nth [of datasets "[0..<length datasets]" i] by simp

lemma dataset_indices_nth:
  "distinct datasets \<Longrightarrow> list_all (\<lambda>i. i < length datasets) is
   \<Longrightarrow> dataset_indices (zip datasets [0..<length datasets]) (map ((!) datasets) is) = Inr is"
  by (induction "is") (simp_all add: dataset_index_lookup)

lemma missing_source_ids_nth:
  assumes "distinct datasets"
  shows "missing_source_ids datasets items = map ((!) datasets) (absent_source_indices datasets items)"
proof -
  have "filter (\<lambda>s. s \<notin> set (map fst items)) (map ((!) datasets) [0..<length datasets])
      = map ((!) datasets) (filter (\<lambda>i. datasets ! i \<notin> set (map fst items)) [0..<length datasets])"
    by (simp only: filter_map comp_def)
  then show ?thesis
    using assms by (simp only: missing_source_ids_def absent_source_indices_def map_nth distinct_remdups_id)
qed

lemma missing_indices_computed:
  assumes "distinct datasets"
  shows "dataset_indices (zip datasets [0..<length datasets]) (missing_source_ids datasets items)
     = Inr (absent_source_indices datasets items)"
  unfolding missing_source_ids_nth [OF assms]
  by (rule dataset_indices_nth [OF assms]) (simp add: absent_source_indices_def list_all_iff)

lemma absent_source_indices_props:
  "distinct (absent_source_indices datasets items) \<and>
   set (absent_source_indices datasets items)
     = {i. i < length datasets \<and> datasets ! i \<notin> fst ` set items}"
  by (auto simp: absent_source_indices_def)

lemma absent_source_indices_length:
  assumes dd: "distinct datasets" and dk: "distinct (map fst items)"
    and sub: "set (map fst items) \<subseteq> set datasets"
  shows "length (absent_source_indices datasets items) = length datasets - length items"
proof -
  let ?K = "set (map fst items)"
  have "map ((!) datasets) (absent_source_indices datasets items) = filter (\<lambda>s. s \<notin> ?K) datasets"
    using missing_source_ids_nth [OF dd, of items] dd
    by (simp add: missing_source_ids_def distinct_remdups_id)
  then have "length (absent_source_indices datasets items) = length (filter (\<lambda>s. s \<notin> ?K) datasets)"
    by (metis length_map)
  moreover have "length (filter (\<lambda>s. s \<notin> ?K) datasets) + length (filter (\<lambda>s. s \<in> ?K) datasets)
      = length datasets"
    using sum_length_filter_compl [of "\<lambda>s. s \<in> ?K" datasets] by simp
  moreover have "length (filter (\<lambda>s. s \<in> ?K) datasets) = card ({s. s \<in> ?K} \<inter> set datasets)"
    using dd by (rule distinct_length_filter)
  moreover have "{s. s \<in> ?K} \<inter> set datasets = ?K" using sub by auto
  moreover have "card ?K = length items"
    using dk by (metis distinct_card length_map)
  ultimately show ?thesis by simp
qed


lemma filter_no_missing:
  "list_all (\<lambda>e. \<not> is_missing_sources_error e) es \<Longrightarrow> filter (missing_sources_error_of key) es = []"
  by (induction es)
     (auto simp: is_missing_sources_error_def missing_sources_error_of_def split: item_error.splits)

text \<open>
  One round of the loop of \<open>__call__\<close>: with \<open>_dataset_map\<close> as \<open>__call__\<close> builds it, the
  look-up of the missing sources never raises, and the round is \<open>merge_items\<close> on the context
  that holds the \<open>NoMatchingItemError\<close> of the item, if it has one.
\<close>

lemma merge_all_items_step:
  assumes dd: "distinct datasets"
    and dm: "dataset_map ctx = zip datasets [0..<length datasets]"
  shows "merge_all_items thresh ma datasets ctx merged ((k, its) # rest)
     = (case merge_items thresh ma
               (ctx\<lparr>item_id := Some k,
                    errors := errors ctx @
                      (if length its < length datasets
                       then [NoMatchingItemError (Some k) (absent_source_indices datasets its)]
                       else [])\<rparr>) its of
          Inl e \<Rightarrow> Inl e
        | Inr (item, ctx3) \<Rightarrow>
            merge_all_items thresh ma datasets ctx3 (dict_set merged (item_key_of item) item) rest)"
proof -
  define ctx1 where "ctx1 = ctx\<lparr>item_id := Some k\<rparr>"
  have dm1: "dataset_map ctx1 = zip datasets [0..<length datasets]"
    using dm by (simp add: ctx1_def)
  have guard: "(if length its < length datasets
        then (case dataset_indices (dataset_map ctx1) (missing_source_ids datasets its) of
                Inl e \<Rightarrow> Inl e
              | Inr missing_sources \<Rightarrow>
                  Inr (add_item_error ctx1 (\<lambda>i. NoMatchingItemError i missing_sources)))
        else Inr ctx1)
      = Inr (ctx\<lparr>item_id := Some k,
                  errors := errors ctx @
                    (if length its < length datasets
                     then [NoMatchingItemError (Some k) (absent_source_indices datasets its)]
                     else [])\<rparr>)"
    unfolding dm1 missing_indices_computed [OF dd]
    by (simp add: ctx1_def add_item_error_def)
  show ?thesis
    unfolding merge_all_items.simps Let_def ctx1_def [symmetric] guard
    by simp
qed

text \<open>
  Whenever the loop returns, it has recorded one \<open>NoMatchingItemError\<close> for every item that
  some dataset lacks, with the indices of these datasets, and none for any other item; and it
  has stored, for every item, what \<open>merge_annotations\<close> returned for the annotations of the
  datasets that hold the item.
\<close>

lemma merge_all_items_run:
  assumes ok: "adds_no_missing_sources_error ma" and dd: "distinct datasets"
  shows "merge_all_items thresh ma datasets ctx merged ims = Inr (merged', ctx') \<Longrightarrow>
     dataset_map ctx = zip datasets [0..<length datasets] \<Longrightarrow> distinct (map fst ims) \<Longrightarrow>
     list_all (\<lambda>(k, its). list_all (\<lambda>(d, it). item_key_of it = k) its) ims \<Longrightarrow>
        (\<forall>key. filter (missing_sources_error_of key) (errors ctx')
                = filter (missing_sources_error_of key) (errors ctx) @
                  (case map_of ims key of
                     None \<Rightarrow> []
                   | Some items \<Rightarrow>
                       if length items < length datasets
                       then [NoMatchingItemError (Some key) (absent_source_indices datasets items)]
                       else [])) \<and>
        (\<forall>key. case map_of ims key of
                 None \<Rightarrow> map_of merged' key = map_of merged key
               | Some items \<Rightarrow>
                   \<exists>c c' ms. ma c (item_sources items) = Inr (c', ms) \<and>
                     map_of merged' key
                         = Some ((snd (hd items))\<lparr>annotations := map tag_consensus
                              (filter (\<lambda>a. thresh \<le> get_score 1 a) ms)\<rparr>))"
proof (induction ims arbitrary: ctx merged)
  case Nil
  then show ?case by simp
next
  case (Cons entry rest)
  obtain k its where entry: "entry = (k, its)" by (cases entry)
  have its_keys: "list_all (\<lambda>(d, it). item_key_of it = k) its"
    using Cons.prems(4) entry by simp
  have k_fresh: "map_of rest k = None"
    using Cons.prems(3) entry by (simp add: map_of_eq_None_iff)
  define absent where "absent = absent_source_indices datasets its"
  define new where "new = (if length its < length datasets
      then [NoMatchingItemError (Some k) absent] else [])"
  define ctx2 where "ctx2 = ctx\<lparr>item_id := Some k, errors := errors ctx @ new\<rparr>"
  define c where "c = index_annotations ctx2 its"
  have eq: "merge_all_items thresh ma datasets ctx merged (entry # rest)
     = (case merge_items thresh ma ctx2 its of
          Inl e \<Rightarrow> Inl e
        | Inr (item, ctx3) \<Rightarrow>
            merge_all_items thresh ma datasets ctx3 (dict_set merged (item_key_of item) item) rest)"
    unfolding entry ctx2_def new_def absent_def
    by (rule merge_all_items_step [OF dd Cons.prems(2)])
  obtain mr where mi0: "merge_items thresh ma ctx2 its = Inr mr"
    using Cons.prems(1) unfolding eq by (cases "merge_items thresh ma ctx2 its") simp_all
  have its_ne: "its \<noteq> []"
    using mi0 by (cases its) (simp_all add: merge_items_def)
  obtain ctx3 ms where ma: "ma c (item_sources its) = Inr (ctx3, ms)"
    using mi0 its_ne
    by (cases its; cases "ma c (item_sources its)") (auto simp: merge_items_def c_def)
  define item' where "item' = (snd (hd its))\<lparr>annotations := map tag_consensus
      (filter (\<lambda>a. thresh \<le> get_score 1 a) ms)\<rparr>"
  have mi: "merge_items thresh ma ctx2 its = Inr (item', ctx3)"
    using its_ne ma by (cases its) (simp_all add: merge_items_def c_def item'_def)
  have key': "item_key_of item' = k"
    using its_ne its_keys by (cases its) (auto simp: item'_def)
  have run: "merge_all_items thresh ma datasets ctx3 (dict_set merged k item') rest = Inr (merged', ctx')"
    using Cons.prems(1) unfolding eq mi by (simp add: key')
  have dmc: "dataset_map c = zip datasets [0..<length datasets]"
    using Cons.prems(2) by (simp add: c_def index_annotations_def ctx2_def)
  have eff: "dataset_map ctx3 = dataset_map c \<and>
        (\<exists>es. errors ctx3 = errors c @ es \<and> list_all (\<lambda>e. \<not> is_missing_sources_error e) es)"
    using ok [unfolded adds_no_missing_sources_error_def, rule_format, OF ma] .
  have dm3: "dataset_map ctx3 = zip datasets [0..<length datasets]"
    using eff dmc by simp
  obtain es where es: "errors ctx3 = errors c @ es"
    and es_ok: "list_all (\<lambda>e. \<not> is_missing_sources_error e) es"
    using eff by blast
  have err3: "errors ctx3 = errors ctx @ new @ es"
    using es by (simp add: c_def index_annotations_def ctx2_def)
  have rest_ok: "list_all (\<lambda>(k, its). list_all (\<lambda>(d, it). item_key_of it = k) its) rest"
    and rest_d: "distinct (map fst rest)"
    using Cons.prems by simp_all
  note ih = Cons.IH [OF run dm3 rest_d rest_ok]
  have errs: "filter (missing_sources_error_of key) (errors ctx')
                = filter (missing_sources_error_of key) (errors ctx3) @
                  (case map_of rest key of
                     None \<Rightarrow> []
                   | Some items \<Rightarrow>
                       if length items < length datasets
                       then [NoMatchingItemError (Some key) (absent_source_indices datasets items)]
                       else [])" for key
    using ih by blast
  have mer: "case map_of rest key of
                 None \<Rightarrow> map_of merged' key = map_of (dict_set merged k item') key
               | Some items \<Rightarrow>
                   \<exists>c c' ms. ma c (item_sources items) = Inr (c', ms) \<and>
                     map_of merged' key
                         = Some ((snd (hd items))\<lparr>annotations := map tag_consensus
                              (filter (\<lambda>a. thresh \<le> get_score 1 a) ms)\<rparr>)" for key
    using ih by blast
  have new_filter: "filter (missing_sources_error_of key) new
      = (if key = k \<and> length its < length datasets
         then [NoMatchingItemError (Some k) absent] else [])" for key
    by (auto simp: new_def missing_sources_error_of_def)
  have e_goal: "filter (missing_sources_error_of key) (errors ctx')
                = filter (missing_sources_error_of key) (errors ctx) @
                  (case map_of (entry # rest) key of
                     None \<Rightarrow> []
                   | Some items \<Rightarrow>
                       if length items < length datasets
                       then [NoMatchingItemError (Some key) (absent_source_indices datasets items)]
                       else [])" for key
  proof (cases "key = k")
    case True
    then show ?thesis
      using errs [of key] k_fresh
      by (simp add: err3 new_filter filter_no_missing [OF es_ok] entry absent_def)
  next
    case False
    then show ?thesis
      using errs [of key]
      by (simp add: err3 new_filter filter_no_missing [OF es_ok] entry)
  qed
  have m_goal: "case map_of (entry # rest) key of
                 None \<Rightarrow> map_of merged' key = map_of merged key
               | Some items \<Rightarrow>
                   \<exists>c c' ms. ma c (item_sources items) = Inr (c', ms) \<and>
                     map_of merged' key
                         = Some ((snd (hd items))\<lparr>annotations := map tag_consensus
                              (filter (\<lambda>a. thresh \<le> get_score 1 a) ms)\<rparr>)" for key
  proof (cases "key = k")
    case True
    have "map_of merged' k = Some item'"
      using mer [of k] k_fresh by (simp add: map_of_dict_set)
    then have "ma c (item_sources its) = Inr (ctx3, ms) \<and>
        map_of merged' k = Some ((snd (hd its))\<lparr>annotations := map tag_consensus
                              (filter (\<lambda>a. thresh \<le> get_score 1 a) ms)\<rparr>)"
      using ma by (simp add: item'_def)
    then have "\<exists>c c' ms. ma c (item_sources its) = Inr (c', ms) \<and>
        map_of merged' k = Some ((snd (hd its))\<lparr>annotations := map tag_consensus
                              (filter (\<lambda>a. thresh \<le> get_score 1 a) ms)\<rparr>)"
      by blast
    then show ?thesis using True by (simp add: entry)
  next
    case False
    then show ?thesis
      using mer [of key] by (simp add: entry map_of_dict_set split: option.splits)
  qed
  show ?case
    using e_goal m_goal by blast
qed

text \<open>
  The loop raises only what \<open>merge_annotations\<close> raises: an item that some dataset lacks
  is no reason for an exception.
\<close>

lemma merge_all_items_raises:
  assumes ok: "adds_no_missing_sources_error ma" and dd: "distinct datasets"
  shows "merge_all_items thresh ma datasets ctx merged ims = Inl e \<Longrightarrow>
     dataset_map ctx = zip datasets [0..<length datasets] \<Longrightarrow>
     list_all (\<lambda>(k, its). its \<noteq> []) ims \<Longrightarrow>
     \<exists>c sources. ma c sources = Inl e"
proof (induction ims arbitrary: ctx merged)
  case Nil
  then show ?case by simp
next
  case (Cons entry rest)
  obtain k its where entry: "entry = (k, its)" by (cases entry)
  have its_ne: "its \<noteq> []" using Cons.prems(3) entry by simp
  define ctx2 where "ctx2 = ctx\<lparr>item_id := Some k,
      errors := errors ctx @
        (if length its < length datasets
         then [NoMatchingItemError (Some k) (absent_source_indices datasets its)] else [])\<rparr>"
  define c where "c = index_annotations ctx2 its"
  have eq: "merge_all_items thresh ma datasets ctx merged (entry # rest)
     = (case merge_items thresh ma ctx2 its of
          Inl e \<Rightarrow> Inl e
        | Inr (item, ctx3) \<Rightarrow>
            merge_all_items thresh ma datasets ctx3 (dict_set merged (item_key_of item) item) rest)"
    unfolding entry ctx2_def
    by (rule merge_all_items_step [OF dd Cons.prems(2)])
  show ?case
  proof (cases "ma c (item_sources its)")
    case (Inl e')
    have "merge_items thresh ma ctx2 its = Inl e'"
      using its_ne Inl unfolding c_def by (rule merge_items_raises)
    then have "e' = e" using Cons.prems(1) unfolding eq by simp
    then show ?thesis using Inl by blast
  next
    case (Inr r)
    obtain ctx3 ms where r: "r = (ctx3, ms)" by (cases r)
    have ma: "ma c (item_sources its) = Inr (ctx3, ms)" using Inr r by simp
    obtain item' where mi: "merge_items thresh ma ctx2 its = Inr (item', ctx3)"
      using its_ne ma by (cases its) (simp_all add: merge_items_def c_def)
    have run: "merge_all_items thresh ma datasets ctx3 (dict_set merged (item_key_of item') item') rest
        = Inl e"
      using Cons.prems(1) unfolding eq mi by simp
    have dmc: "dataset_map c = zip datasets [0..<length datasets]"
      using Cons.prems(2) by (simp add: c_def index_annotations_def ctx2_def)
    have "dataset_map ctx3 = dataset_map c"
      using ok [unfolded adds_no_missing_sources_error_def, rule_format, OF ma] by simp
    then have dm3: "dataset_map ctx3 = zip datasets [0..<length datasets]"
      using dmc by simp
    have rest_ne: "list_all (\<lambda>(k, its). its \<noteq> []) rest"
      using Cons.prems(3) by simp
    show ?thesis
      by (rule Cons.IH [OF run dm3 rest_ne])
  qed
qed

lemma call_raises_only_from_merge_annotations:
  assumes "adds_no_missing_sources_error ma" and "distinct datasets"
    and "list_all (\<lambda>(k, its). its \<noteq> []) item_matches"
    and "IntersectMerge_call thresh ma datasets item_matches = Inl e"
  shows "\<exists>c sources. ma c sources = Inl e"
proof -
  have "merge_all_items thresh ma datasets (initial_ctx datasets) [] item_matches = Inl e"
    using assms(4)
    by (cases "merge_all_items thresh ma datasets (initial_ctx datasets) [] item_matches")
       (auto simp: IntersectMerge_call_def)
  then show ?thesis
    by (rule merge_all_items_raises [OF assms(1) assms(2) _ initial_dataset_map [OF assms(2)] assms(3)])
qed

text \<open>
  Whenever the call returns and an item is present in \<open>k\<close> of the \<open>N\<close> datasets,
  \<open>k < N\<close>, the merged dataset holds an item for the key, merged from the annotations of
  the datasets that have it, and the errors hold exactly one \<open>NoMatchingItemError\<close> for
  the key, whose sources are the \<open>N - k\<close> indices of the datasets without the item.
\<close>

lemma missing_sources_recorded_when_call_returns:
  assumes "adds_no_missing_sources_error ma" and "distinct datasets"
    and "distinct (map fst item_matches)"
    and "list_all (\<lambda>(k, its). list_all (\<lambda>(d, it). item_key_of it = k) its) item_matches"
    and "map_of item_matches key = Some items"
    and "distinct (map fst items)" and "set (map fst items) \<subseteq> set datasets"
    and "length items < length datasets"
    and "IntersectMerge_call thresh ma datasets item_matches = Inr res"
  shows "\<exists>srcs c c' ms.
     filter (missing_sources_error_of key) (result_errors res) = [NoMatchingItemError (Some key) srcs] \<and>
     distinct srcs \<and>
     set srcs = {i. i < length datasets \<and> datasets ! i \<notin> fst ` set items} \<and>
     length srcs = length datasets - length items \<and>
     ma c (item_sources items) = Inr (c', ms) \<and>
     map_of (merged_items res) key
       = Some ((snd (hd items))\<lparr>annotations := map tag_consensus
            (filter (\<lambda>a. thresh \<le> get_score 1 a) ms)\<rparr>)"
proof -
  have dm: "dataset_map (initial_ctx datasets) = zip datasets [0..<length datasets]"
    by (rule initial_dataset_map [OF assms(2)])
  obtain mr where run0: "merge_all_items thresh ma datasets (initial_ctx datasets) [] item_matches = Inr mr"
    using assms(9)
    by (cases "merge_all_items thresh ma datasets (initial_ctx datasets) [] item_matches")
       (simp_all add: IntersectMerge_call_def)
  obtain merged' ctx' where mr: "mr = (merged', ctx')" by (cases mr)
  have run: "merge_all_items thresh ma datasets (initial_ctx datasets) [] item_matches
        = Inr (merged', ctx')"
    using run0 mr by simp
  note props = merge_all_items_run [OF assms(1) assms(2) run dm assms(3) assms(4)]
  have errs: "filter (missing_sources_error_of key) (errors ctx')
                = filter (missing_sources_error_of key) (errors (initial_ctx datasets)) @
                  (case map_of item_matches key of
                     None \<Rightarrow> []
                   | Some items \<Rightarrow>
                       if length items < length datasets
                       then [NoMatchingItemError (Some key) (absent_source_indices datasets items)]
                       else [])"
    using props by blast
  have mer: "case map_of item_matches key of
                 None \<Rightarrow> map_of merged' key = map_of [] key
               | Some items \<Rightarrow>
                   \<exists>c c' ms. ma c (item_sources items) = Inr (c', ms) \<and>
                     map_of merged' key
                         = Some ((snd (hd items))\<lparr>annotations := map tag_consensus
                              (filter (\<lambda>a. thresh \<le> get_score 1 a) ms)\<rparr>)"
    using props by blast
  have res: "res = \<lparr>merged_items = merged', result_errors = errors ctx',
      mean_consensus_score = map (\<lambda>(d, xs). (d, np_mean xs)) (dataset_mean_consensus_score ctx')\<rparr>"
    using assms(9) by (simp add: IntersectMerge_call_def run)
  have e: "filter (missing_sources_error_of key) (result_errors res)
      = [NoMatchingItemError (Some key) (absent_source_indices datasets items)]"
    using errs assms(5) assms(8) by (simp add: res initial_ctx_def)
  obtain c c' ms where m: "ma c (item_sources items) = Inr (c', ms)"
    "map_of (merged_items res) key
       = Some ((snd (hd items))\<lparr>annotations := map tag_consensus
            (filter (\<lambda>a. thresh \<le> get_score 1 a) ms)\<rparr>)"
    using mer assms(5) by (auto simp: res)
  show ?thesis
    using e m absent_source_indices_props [of datasets items]
      absent_source_indices_length [OF assms(2) assms(6) assms(7)]
    by blast
qed

section \<open>The effect of the shape mergers on the context\<close>

lemma merger_effect_refl: "merger_effect bounded ctx ctx"
  by (simp add: merger_effect_def)

lemma merger_effect_trans:
  assumes "merger_effect bounded ctx ctx1" and "merger_effect bounded ctx1 ctx2"
  shows "merger_effect bounded ctx ctx2"
proof -
  obtain es1 where e1: "errors ctx1 = errors ctx @ es1"
    and o1: "list_all (\<lambda>e. \<not> is_missing_sources_error e) es1"
    using assms(1) unfolding merger_effect_def by blast
  obtain es2 where e2: "errors ctx2 = errors ctx1 @ es2"
    and o2: "list_all (\<lambda>e. \<not> is_missing_sources_error e) es2"
    using assms(2) unfolding merger_effect_def by blast
  have "errors ctx2 = errors ctx @ (es1 @ es2)" using e1 e2 by simp
  moreover have "list_all (\<lambda>e. \<not> is_missing_sources_error e) (es1 @ es2)" using o1 o2 by simp
  ultimately have e: "\<exists>es. errors ctx2 = errors ctx @ es \<and> list_all (\<lambda>e. \<not> is_missing_sources_error e) es"
    by blast
  have d: "dataset_map ctx2 = dataset_map ctx"
    using assms unfolding merger_effect_def by simp
  have k: "set (map fst (dataset_mean_consensus_score ctx))
        \<subseteq> set (map fst (dataset_mean_consensus_score ctx2))"
    using assms unfolding merger_effect_def by blast
  have u: "\<not> bounded \<or> \<not> scores_in_unit (dataset_mean_consensus_score ctx)
         \<or> scores_in_unit (dataset_mean_consensus_score ctx2)"
    using assms unfolding merger_effect_def by blast
  show ?thesis
    unfolding merger_effect_def using d e k u by blast
qed

lemma list_all_dict_set:
  "list_all P d \<Longrightarrow> P (k, v) \<Longrightarrow> list_all P (dict_set d k v)"
  by (induction d) auto

lemma append_consensus_score_unit:
  assumes "scores_in_unit (dataset_mean_consensus_score ctx)" and "0 \<le> v" and "v \<le> 1"
  shows "scores_in_unit (dataset_mean_consensus_score (append_consensus_score ctx d v))"
proof -
  let ?old = "case map_of (dataset_mean_consensus_score ctx) d of None \<Rightarrow> [] | Some l \<Rightarrow> l"
  have old: "list_all (\<lambda>x. 0 \<le> x \<and> x \<le> 1) ?old"
  proof (cases "map_of (dataset_mean_consensus_score ctx) d")
    case None
    then show ?thesis by simp
  next
    case (Some l)
    then have "(d, l) \<in> set (dataset_mean_consensus_score ctx)" by (rule map_of_SomeD)
    then show ?thesis
      using assms(1) Some by (auto simp: scores_in_unit_def list_all_iff)
  qed
  have "list_all (\<lambda>(d, xs). list_all (\<lambda>x. 0 \<le> x \<and> x \<le> 1) xs)
      (dict_set (dataset_mean_consensus_score ctx) d (?old @ [v]))"
  proof (rule list_all_dict_set)
    show "list_all (\<lambda>(d, xs). list_all (\<lambda>x. 0 \<le> x \<and> x \<le> 1) xs) (dataset_mean_consensus_score ctx)"
      using assms(1) by (simp add: scores_in_unit_def)
    show "case (d, ?old @ [v]) of (d, xs) \<Rightarrow> list_all (\<lambda>x. 0 \<le> x \<and> x \<le> 1) xs"
      using old assms(2,3) by simp
  qed
  then show ?thesis
    by (simp add: append_consensus_score_def scores_in_unit_def)
qed

lemma append_consensus_score_effect:
  "(bounded \<Longrightarrow> 0 \<le> v \<and> v \<le> 1) \<Longrightarrow> merger_effect bounded ctx (append_consensus_score ctx d v)"
proof -
  assume b: "bounded \<Longrightarrow> 0 \<le> v \<and> v \<le> 1"
  have d: "dataset_map (append_consensus_score ctx d v) = dataset_map ctx"
    by (simp add: append_consensus_score_def)
  have e: "errors (append_consensus_score ctx d v) = errors ctx @ []"
    by (simp add: append_consensus_score_def)
  have k: "set (map fst (dataset_mean_consensus_score ctx))
     \<subseteq> set (map fst (dataset_mean_consensus_score (append_consensus_score ctx d v)))"
    by (auto simp: append_consensus_score_def keys_dict_set set_set_add)
  have u: "\<not> bounded \<or> \<not> scores_in_unit (dataset_mean_consensus_score ctx)
         \<or> scores_in_unit (dataset_mean_consensus_score (append_consensus_score ctx d v))"
    using b append_consensus_score_unit [of ctx v d] by blast
  have "\<exists>es. errors (append_consensus_score ctx d v) = errors ctx @ es
      \<and> list_all (\<lambda>e. \<not> is_missing_sources_error e) es"
    using e by (intro exI [of _ "[]"]) simp
  then show ?thesis
    unfolding merger_effect_def using d k u by blast
qed

lemma record_scores_effect:
  "(bounded \<Longrightarrow> list_all (\<lambda>ann. dst ann \<le> 1) cluster) \<Longrightarrow>
   merger_effect bounded ctx
     (fold (\<lambda>ann c. append_consensus_score c (src ann) (max 0 (dst ann))) cluster ctx)"
proof (induction cluster arbitrary: ctx)
  case Nil
  show ?case by (simp add: merger_effect_refl)
next
  case (Cons a cluster)
  have "merger_effect bounded ctx (append_consensus_score ctx (src a) (max 0 (dst a)))"
    using Cons.prems by (intro append_consensus_score_effect) auto
  moreover have "merger_effect bounded (append_consensus_score ctx (src a) (max 0 (dst a)))
     (fold (\<lambda>ann c. append_consensus_score c (src ann) (max 0 (dst ann))) cluster
        (append_consensus_score ctx (src a) (max 0 (dst a))))"
    using Cons.prems by (intro Cons.IH) auto
  ultimately have "merger_effect bounded ctx
     (fold (\<lambda>ann c. append_consensus_score c (src ann) (max 0 (dst ann))) cluster
        (append_consensus_score ctx (src a) (max 0 (dst a))))"
    by (rule merger_effect_trans)
  then show ?case by (simp only: fold.simps comp_apply)
qed

text \<open>
  What the shape mergers do to the context: \<open>merge_cluster_shape\<close> records, for every member,
  \<open>max(0, distance)\<close>, so scores in [0, 1] when no distance exceeds 1; the label vote adds
  \<open>FailedLabelVotingError\<close> only; neither touches \<open>_dataset_map\<close>.
\<close>

lemma ShapeMerger_merge_cluster_shape_effect:
  assumes "ShapeMerger_merge_cluster_shape ext ctx cluster = Inr (r, ctx')"
  shows "merger_effect (\<forall>a b. shape_distance ext a b \<le> 1) ctx ctx'"
proof -
  obtain shape where ctx': "ctx' = fold (\<lambda>ann c. append_consensus_score c (get_ann_source ext (ann_id ann))
                                      (max 0 (shape_distance ext ann shape))) cluster ctx"
    using assms by (auto simp: ShapeMerger_merge_cluster_shape_def Let_def split: sum.splits)
  show ?thesis
    unfolding ctx'
    by (rule record_scores_effect) (simp add: list_all_iff)
qed

lemma find_cluster_label_effect:
  assumes "find_cluster_label ext quorum ctx cluster = Inr (r, ctx')"
  shows "merger_effect bounded ctx ctx'"
proof -
  obtain v vs where votes: "tally_shape_votes ext [] cluster = v # vs"
    using assms by (cases "tally_shape_votes ext [] cluster") (simp_all add: find_cluster_label_def)
  obtain name score count where m: "max_first (\<lambda>e. fst (snd e)) v vs = (name, score, count)"
    by (cases "max_first (\<lambda>e. fst (snd e)) v vs")
  define e where "e = FailedLabelVotingError (item_id ctx) (ShapeVotes (v # vs)) None"
  have c: "ctx' = (if int count < quorum then ctx\<lparr>errors := errors ctx @ [e]\<rparr> else ctx)"
    using assms votes m
    by (simp add: find_cluster_label_def Let_def add_item_error_def e_def split: if_splits)
  have ok: "\<not> is_missing_sources_error e"
    by (simp add: e_def is_missing_sources_error_def)
  show ?thesis
  proof (cases "int count < quorum")
    case True
    have "\<exists>es. errors ctx' = errors ctx @ es \<and> list_all (\<lambda>e. \<not> is_missing_sources_error e) es"
      using ok c True by (intro exI [of _ "[e]"]) simp
    then show ?thesis
      unfolding merger_effect_def using c True by simp
  next
    case False
    then show ?thesis using c by (simp add: merger_effect_refl)
  qed
qed

lemma merge_cluster_effect:
  assumes "merge_cluster (ShapeMerger_merge_cluster_shape ext) ext quorum ctx cluster = Inr (m, ctx')"
  shows "merger_effect (\<forall>a b. shape_distance ext a b \<le> 1) ctx ctx'"
proof -
  obtain lab label_score ctx1 where f: "find_cluster_label ext quorum ctx cluster = Inr ((lab, label_score), ctx1)"
    using assms by (auto simp: merge_cluster_def split: sum.splits)
  note f1 = find_cluster_label_effect [OF f, of "\<forall>a b. shape_distance ext a b \<le> 1"]
  show ?thesis
  proof (cases lab)
    case None
    then have "ctx' = ctx1" using assms f by (simp add: merge_cluster_def)
    then show ?thesis using f1 by simp
  next
    case (Some l)
    then obtain r where s: "ShapeMerger_merge_cluster_shape ext ctx1 cluster = Inr (r, ctx')"
      using assms f by (auto simp: merge_cluster_def split: sum.splits)
    show ?thesis
      using f1 ShapeMerger_merge_cluster_shape_effect [OF s] by (rule merger_effect_trans)
  qed
qed

lemma merge_clusters_effect:
  "merge_clusters (ShapeMerger_merge_cluster_shape ext) ext quorum ctx clusters = Inr (ms, ctx')
   \<Longrightarrow> merger_effect (\<forall>a b. shape_distance ext a b \<le> 1) ctx ctx'"
proof (induction clusters arbitrary: ctx ms)
  case Nil
  then show ?case by (simp add: merger_effect_refl)
next
  case (Cons cluster clusters)
  from Cons.prems obtain m ctx1 ms1 where
    c: "merge_cluster (ShapeMerger_merge_cluster_shape ext) ext quorum ctx cluster = Inr (m, ctx1)"
    and r: "merge_clusters (ShapeMerger_merge_cluster_shape ext) ext quorum ctx1 clusters = Inr (ms1, ctx')"
    by (auto split: sum.splits)
  show ?case
    using merge_cluster_effect [OF c] Cons.IH [OF r] by (rule merger_effect_trans)
qed

lemma example_merge_annotations_effect:
  assumes "example_merge_annotations ctx sources = Inr (ctx', ms)"
  shows "merger_effect True ctx ctx'"
proof (cases "merge_clusters (ShapeMerger_merge_cluster_shape example_externals) example_externals 0
             ctx [concat sources]")
  case (Inl e)
  then show ?thesis using assms by (simp add: example_merge_annotations_def)
next
  case (Inr r)
  then obtain ms' ctx'' where r: "r = (ms', ctx'')" by (cases r)
  have same: "ctx'' = ctx'"
    using assms Inr r by (simp add: example_merge_annotations_def)
  have "\<forall>a b. shape_distance example_externals a b \<le> 1"
    by (simp add: example_externals_def)
  then show ?thesis
    using merge_clusters_effect [OF Inr [unfolded r]] same by simp
qed

lemma example_merge_annotations_adds_no_missing:
  "adds_no_missing_sources_error example_merge_annotations"
  unfolding adds_no_missing_sources_error_def
proof (intro allI impI)
  fix ctx sources ctx' merged
  assume "example_merge_annotations ctx sources = Inr (ctx', merged)"
  then have "merger_effect True ctx ctx'" by (rule example_merge_annotations_effect)
  then show "dataset_map ctx' = dataset_map ctx \<and>
       (\<exists>es. errors ctx' = errors ctx @ es \<and>
             list_all (\<lambda>e. \<not> is_missing_sources_error e) es)"
    unfolding merger_effect_def by simp
qed

lemma example_merge_annotations_unit_scores:
  "records_unit_scores example_merge_annotations"
  unfolding records_unit_scores_def
proof (intro allI impI)
  fix ctx sources ctx' merged
  assume "example_merge_annotations ctx sources = Inr (ctx', merged)"
  then have "merger_effect True ctx ctx'" by (rule example_merge_annotations_effect)
  then show "set (map fst (dataset_mean_consensus_score ctx))
          \<subseteq> set (map fst (dataset_mean_consensus_score ctx')) \<and>
        (\<not> scores_in_unit (dataset_mean_consensus_score ctx) \<or>
         scores_in_unit (dataset_mean_consensus_score ctx'))"
    unfolding merger_effect_def by simp
qed

section \<open>Per-source consensus scores\<close>

lemma merge_all_items_scores:
  assumes r: "records_unit_scores ma"
  shows "merge_all_items thresh ma datasets ctx merged ims = Inr (merged', ctx') \<Longrightarrow>
     set (map fst (dataset_mean_consensus_score ctx))
       \<subseteq> set (map fst (dataset_mean_consensus_score ctx')) \<and>
     (\<not> scores_in_unit (dataset_mean_consensus_score ctx)
        \<or> scores_in_unit (dataset_mean_consensus_score ctx'))"
proof (induction ims arbitrary: ctx merged)
  case Nil
  then show ?case by simp
next
  case (Cons entry rest)
  obtain k its where entry: "entry = (k, its)" by (cases entry)
  define ctx1 where "ctx1 = ctx\<lparr>item_id := Some k\<rparr>"
  define G where "G = (if length its < length datasets
            then (case dataset_indices (dataset_map ctx1) (missing_source_ids datasets its) of
                    Inl e \<Rightarrow> Inl e
                  | Inr missing_sources \<Rightarrow>
                      Inr (add_item_error ctx1 (\<lambda>i. NoMatchingItemError i missing_sources)))
            else Inr ctx1)"
  have eq: "merge_all_items thresh ma datasets ctx merged (entry # rest)
      = (case G of
           Inl e \<Rightarrow> Inl e
         | Inr ctx2 \<Rightarrow>
             (case merge_items thresh ma ctx2 its of
                Inl e \<Rightarrow> Inl e
              | Inr (item, ctx3) \<Rightarrow>
                  merge_all_items thresh ma datasets ctx3
                    (dict_set merged (item_key_of item) item) rest))"
    by (simp only: entry merge_all_items.simps Let_def G_def ctx1_def)
  obtain ctx2 where g: "G = Inr ctx2"
    using Cons.prems unfolding eq by (cases G) simp_all
  have s2: "dataset_mean_consensus_score ctx2 = dataset_mean_consensus_score ctx"
  proof (cases "length its < length datasets")
    case True
    then obtain ms where "ctx2 = add_item_error ctx1 (\<lambda>i. NoMatchingItemError i ms)"
      using g unfolding G_def
      by (cases "dataset_indices (dataset_map ctx1) (missing_source_ids datasets its)") auto
    then show ?thesis by (simp add: add_item_error_def ctx1_def)
  next
    case False
    then have "ctx2 = ctx1" using g unfolding G_def by simp
    then show ?thesis by (simp add: ctx1_def)
  qed
  obtain mr where mi: "merge_items thresh ma ctx2 its = Inr mr"
    using Cons.prems unfolding eq g by (cases "merge_items thresh ma ctx2 its") simp_all
  obtain item ctx3 where mr: "mr = (item, ctx3)" by (cases mr)
  have rest: "merge_all_items thresh ma datasets ctx3 (dict_set merged (item_key_of item) item) rest
        = Inr (merged', ctx')"
    using Cons.prems by (simp add: eq g mi mr)
  have its_ne: "its \<noteq> []"
    using mi by (cases its) (simp_all add: merge_items_def)
  obtain ms where c3: "ma (index_annotations ctx2 its) (item_sources its) = Inr (ctx3, ms)"
    using mi its_ne unfolding mr
    by (cases its; cases "ma (index_annotations ctx2 its) (item_sources its)")
       (auto simp: merge_items_def)
  have si: "dataset_mean_consensus_score (index_annotations ctx2 its) = dataset_mean_consensus_score ctx"
    using s2 by (simp add: index_annotations_def)
  have step: "set (map fst (dataset_mean_consensus_score ctx))
       \<subseteq> set (map fst (dataset_mean_consensus_score ctx3)) \<and>
     (\<not> scores_in_unit (dataset_mean_consensus_score ctx)
        \<or> scores_in_unit (dataset_mean_consensus_score ctx3))"
    using r [unfolded records_unit_scores_def, rule_format, OF c3]
    unfolding si .
  show ?case
    using step Cons.IH [OF rest] by blast
qed

lemma keys_of_means:
  "map fst (map (\<lambda>(d, xs). (d, np_mean xs)) l) = map fst l"
  by (induction l) auto

lemma fold_dict_set_empty_lists:
  "list_all P acc \<Longrightarrow> (\<And>d. P (d, [])) \<Longrightarrow> list_all P (fold (\<lambda>d m. dict_set m d []) ds acc)"
  by (induction ds arbitrary: acc) (simp_all add: list_all_dict_set)

lemma fold_dict_set_keys:
  "set (map fst (fold (\<lambda>d m. dict_set m d v) ds acc)) = set (map fst acc) \<union> set ds"
proof (induction ds arbitrary: acc)
  case Nil
  show ?case by simp
next
  case (Cons d ds)
  have "set (map fst (dict_set acc d v)) = insert d (set (map fst acc))"
    by (simp only: keys_dict_set set_set_add)
  then show ?case using Cons [of "dict_set acc d v"] by auto
qed

lemma initial_scores:
  "set (map fst (dataset_mean_consensus_score (initial_ctx datasets))) = set datasets \<and>
   scores_in_unit (dataset_mean_consensus_score (initial_ctx datasets))"
proof -
  have "scores_in_unit (fold (\<lambda>d m. dict_set m d []) datasets [])"
    unfolding scores_in_unit_def by (rule fold_dict_set_empty_lists) simp_all
  then show ?thesis
    using fold_dict_set_keys [of "[]" datasets "[]"] by (simp add: initial_ctx_def)
qed

lemma sum_list_unit_le: "list_all (\<lambda>x::real. 0 \<le> x \<and> x \<le> 1) xs \<Longrightarrow> 0 \<le> sum_list xs \<and> sum_list xs \<le> real (length xs)"
  by (induction xs) auto

lemma np_mean_unit:
  assumes "list_all (\<lambda>x::real. 0 \<le> x \<and> x \<le> 1) xs" and "np_mean xs = Some v"
  shows "0 \<le> v \<and> v \<le> 1"
proof -
  have ne: "xs \<noteq> []" and v: "v = sum_list xs / real (length xs)"
    using assms(2) by (auto simp: np_mean_def split: if_splits)
  have pos: "0 < real (length xs)" using ne by simp
  have "0 \<le> sum_list xs" and "sum_list xs \<le> real (length xs)"
    using sum_list_unit_le [OF assms(1)] by simp_all
  then show ?thesis
    unfolding v using pos by (simp add: divide_le_eq)
qed

text \<open>
  C9 (amended). After a call, \<open>dataset_mean_consensus_score\<close> has an entry for the handle
  \<open>id(dataset)\<close> of every source; every entry is the mean of the list accumulated for that
  handle once all items have been merged; and a mean of scores that are all in [0, 1] is
  in [0, 1].
\<close>

theorem consensus_score_is_mean_per_dataset_id:
  assumes "records_unit_scores ma"
    and "IntersectMerge_call thresh ma datasets item_matches = Inr res"
  shows "set datasets \<subseteq> set (map fst (mean_consensus_score res)) \<and>
     (\<exists>merged ctx.
        merge_all_items thresh ma datasets (initial_ctx datasets) [] item_matches = Inr (merged, ctx) \<and>
        mean_consensus_score res
          = map (\<lambda>(d, xs). (d, np_mean xs)) (dataset_mean_consensus_score ctx) \<and>
        (\<forall>(d, xs) \<in> set (dataset_mean_consensus_score ctx).
           xs \<noteq> [] \<longrightarrow> (d, Some (sum_list xs / real (length xs))) \<in> set (mean_consensus_score res))) \<and>
     (\<forall>(d, m) \<in> set (mean_consensus_score res). \<forall>v. m = Some v \<longrightarrow> 0 \<le> v \<and> v \<le> 1)"
proof -
  obtain mr where run0: "merge_all_items thresh ma datasets (initial_ctx datasets) [] item_matches = Inr mr"
    using assms(2)
    by (cases "merge_all_items thresh ma datasets (initial_ctx datasets) [] item_matches")
       (simp_all add: IntersectMerge_call_def)
  obtain merged ctx where mr: "mr = (merged, ctx)" by (cases mr)
  have run: "merge_all_items thresh ma datasets (initial_ctx datasets) [] item_matches
      = Inr (merged, ctx)"
    using run0 mr by simp
  have "IntersectMerge_call thresh ma datasets item_matches
      = Inr \<lparr>merged_items = merged, result_errors = errors ctx,
             mean_consensus_score =
               map (\<lambda>(d, xs). (d, np_mean xs)) (dataset_mean_consensus_score ctx)\<rparr>"
    by (simp add: IntersectMerge_call_def run)
  then have "res = \<lparr>merged_items = merged, result_errors = errors ctx,
             mean_consensus_score =
               map (\<lambda>(d, xs). (d, np_mean xs)) (dataset_mean_consensus_score ctx)\<rparr>"
    using assms(2) by (simp only: sum.inject)
  then have means: "mean_consensus_score res
          = map (\<lambda>(d, xs). (d, np_mean xs)) (dataset_mean_consensus_score ctx)"
    by simp
  note scores = merge_all_items_scores [OF assms(1) run]
  note init = initial_scores [of datasets]
  have inv: "set (map fst (dataset_mean_consensus_score (initial_ctx datasets)))
       \<subseteq> set (map fst (dataset_mean_consensus_score ctx))"
    using scores by (rule conjunct1)
  have unit: "scores_in_unit (dataset_mean_consensus_score ctx)"
    using scores init by blast
  have keys: "set datasets \<subseteq> set (map fst (mean_consensus_score res))"
    using inv initial_scores [of datasets] by (simp only: means keys_of_means)
  have each: "\<forall>(d, xs) \<in> set (dataset_mean_consensus_score ctx).
           xs \<noteq> [] \<longrightarrow> (d, Some (sum_list xs / real (length xs))) \<in> set (mean_consensus_score res)"
  proof (intro ballI)
    fix e assume m: "e \<in> set (dataset_mean_consensus_score ctx)"
    obtain d xs where e: "e = (d, xs)" by (cases e)
    have "(\<lambda>(d, xs). (d, np_mean xs)) e \<in> set (mean_consensus_score res)"
      unfolding means using m by simp
    then show "case e of (d, xs) \<Rightarrow>
        xs \<noteq> [] \<longrightarrow> (d, Some (sum_list xs / real (length xs))) \<in> set (mean_consensus_score res)"
      unfolding e by (auto simp: np_mean_def)
  qed
  have range: "\<forall>(d, m) \<in> set (mean_consensus_score res). \<forall>v. m = Some v \<longrightarrow> 0 \<le> v \<and> v \<le> 1"
  proof (intro ballI)
    fix e assume "e \<in> set (mean_consensus_score res)"
    then obtain d xs where e: "e = (d, np_mean xs)" and m: "(d, xs) \<in> set (dataset_mean_consensus_score ctx)"
      unfolding means by auto
    have "list_all (\<lambda>x. 0 \<le> x \<and> x \<le> 1) xs"
      using unit m by (auto simp: scores_in_unit_def list_all_iff)
    then have "\<forall>v. np_mean xs = Some v \<longrightarrow> 0 \<le> v \<and> v \<le> 1"
      by (intro allI impI) (rule np_mean_unit)
    then show "case e of (d, m) \<Rightarrow> \<forall>v. m = Some v \<longrightarrow> 0 \<le> v \<and> v \<le> 1"
      unfolding e by (simp only: prod.case)
  qed
  have "\<exists>merged ctx.
        merge_all_items thresh ma datasets (initial_ctx datasets) [] item_matches = Inr (merged, ctx) \<and>
        mean_consensus_score res
          = map (\<lambda>(d, xs). (d, np_mean xs)) (dataset_mean_consensus_score ctx) \<and>
        (\<forall>(d, xs) \<in> set (dataset_mean_consensus_score ctx).
           xs \<noteq> [] \<longrightarrow> (d, Some (sum_list xs / real (length xs))) \<in> set (mean_consensus_score res))"
    by (rule exI [of _ merged], rule exI [of _ ctx]) (intro conjI run means each)
  then show ?thesis
    using keys range by (intro conjI)
qed

section \<open>Calls on concrete sources\<close>

text \<open>
  Two calls on concrete sources, with one item \<open>frame\<close> that the datasets 100 and 200
  hold with one box each (boxes 10 and 20, similarity 4/5): over the datasets 100, 200, 300
  and over the datasets 100, 200.
\<close>

lemmas call_eval_defs =
  IntersectMerge_call_def initial_ctx_def merge_items_def example_merge_annotations_def
  merge_cluster_def find_cluster_label_def ShapeMerger_merge_cluster_shape_def
  merge_cluster_shape_mean_box_nearest_def append_consensus_score_def example_externals_def
  example_item_def shape_ann_def missing_source_ids_def add_item_error_def dataset_count_def
  index_annotations_def item_sources_def tag_consensus_def get_score_def Let_def np_mean_def

lemma call_over_three_datasets:
  "IntersectMerge_call 0 example_merge_annotations [100, 200, 300]
      [((''frame'', ''''), [(100, example_item 7 10), (200, example_item 8 20)])]
   = Inr \<lparr>merged_items =
             [((''frame'', ''''),
               \<lparr>item_obj_id = 7, item_key_of = (''frame'', ''''),
                  annotations = [(shape_ann ABbox 10)\<lparr>score_attr := Some (3/5),
                                                      source_attr := Some ''consensus''\<rparr>]\<rparr>)],
           result_errors = [NoMatchingItemError (Some (''frame'', '''')) [2]],
           mean_consensus_score = [(100, Some 1), (200, Some (4/5)), (300, None)]\<rparr>"
  by (simp add: call_eval_defs)

lemma call_over_two_datasets:
  "IntersectMerge_call 0 example_merge_annotations [100, 200]
      [((''frame'', ''''), [(100, example_item 7 10), (200, example_item 8 20)])]
   = Inr \<lparr>merged_items =
             [((''frame'', ''''),
               \<lparr>item_obj_id = 7, item_key_of = (''frame'', ''''),
                  annotations = [(shape_ann ABbox 10)\<lparr>score_attr := Some (9/10),
                                                      source_attr := Some ''consensus''\<rparr>]\<rparr>)],
           result_errors = [],
           mean_consensus_score = [(100, Some 1), (200, Some (4/5))]\<rparr>"
  by (simp add: call_eval_defs)

text \<open>
  The call over the datasets 100, 200 and 300 returns, so what holds of a returning call
  holds of it: one \<open>NoMatchingItemError\<close> for \<open>frame\<close>, with the index 2 of the dataset
  300, and the item merged from the boxes of the datasets 100 and 200.
\<close>

lemma missing_sources_recorded_over_three_datasets:
  "map_sum id result_errors
     (IntersectMerge_call 0 example_merge_annotations [100, 200, 300]
        [((''frame'', ''''), [(100, example_item 7 10), (200, example_item 8 20)])])
     = Inr [NoMatchingItemError (Some (''frame'', '''')) [2]] \<and>
   map_sum id merged_items
     (IntersectMerge_call 0 example_merge_annotations [100, 200, 300]
        [((''frame'', ''''), [(100, example_item 7 10), (200, example_item 8 20)])])
     = Inr [((''frame'', ''''),
             \<lparr>item_obj_id = 7, item_key_of = (''frame'', ''''),
                annotations = [(shape_ann ABbox 10)\<lparr>score_attr := Some (3/5),
                                                    source_attr := Some ''consensus''\<rparr>]\<rparr>)]"
  using missing_sources_recorded_when_call_returns
    [OF example_merge_annotations_adds_no_missing _ _ _ _ _ _ _ call_over_three_datasets,
     where key = "(''frame'', '''')"
       and items = "[(100, example_item 7 10), (200, example_item 8 20)]"]
  by (simp add: call_over_three_datasets)

text \<open>
  C8 fails on the code. Three datasets, quorum 3, and an item that the datasets 100 and 200
  hold, each with the label \<open>car\<close>, and the dataset 300 lacks: the label has 2 votes, fewer
  than the quorum, the label merger raises TypeError (the defect shown for C6), nothing on the
  way catches it, and the call ends with the exception: it returns no merged item and no
  error list. With quorum 2 the same call returns the item merged from the two datasets
  and one \<open>NoMatchingItemError\<close> for the dataset with the index 2.
\<close>

theorem missing_item_not_merged_below_quorum:
  "IntersectMerge_call 0 (label_merge_annotations example_externals 3) [100, 200, 300]
      [((''frame'', ''''), [(100, label_item 7 10), (200, label_item 8 20)])]
     = Inl TypeError \<and>
   IntersectMerge_call 0 (label_merge_annotations example_externals 2) [100, 200, 300]
      [((''frame'', ''''), [(100, label_item 7 10), (200, label_item 8 20)])]
     = Inr \<lparr>merged_items =
               [((''frame'', ''''),
                 \<lparr>item_obj_id = 7, item_key_of = (''frame'', ''''),
                    annotations = [(shape_ann ALabel 0)\<lparr>score_attr := Some (2/3),
                                                        source_attr := Some ''consensus''\<rparr>]\<rparr>)],
             result_errors = [NoMatchingItemError (Some (''frame'', '''')) [2]],
             mean_consensus_score = [(100, None), (200, None), (300, None)]\<rparr>"
  by (simp add: IntersectMerge_call_def initial_ctx_def merge_items_def label_merge_annotations_def
      LabelMatcher_match_annotations_def LabelMerger_merge_clusters_def failed_vote_sources_def
      example_externals_def label_item_def shape_ann_def missing_source_ids_def add_item_error_def
      dataset_count_def index_annotations_def item_sources_def tag_consensus_def get_score_def
      Let_def np_mean_def)

text \<open>
  C9 as stated fails: over the datasets with the handles 100 and 200 the keys of
  \<open>dataset_mean_consensus_score\<close> are 100 and 200, the values of \<open>id(dataset)\<close>, not the
  source indices 0 and 1.
\<close>

theorem consensus_score_not_keyed_by_source_index:
  "map_sum id mean_consensus_score
     (IntersectMerge_call 0 example_merge_annotations [100, 200]
        [((''frame'', ''''), [(100, example_item 7 10), (200, example_item 8 20)])])
     = Inr [(100, Some 1), (200, Some (4/5))] \<and>
   fst ` set [(100::nat, Some (1::real)), (200, Some (4/5))] \<noteq> {0..<length [100::nat, 200]}"
proof -
  have "(100::nat) \<in> fst ` set [(100::nat, Some (1::real)), (200, Some (4/5))]" by simp
  moreover have "(100::nat) \<notin> {0..<length [100::nat, 200]}" by simp
  ultimately have "fst ` set [(100::nat, Some (1::real)), (200, Some (4/5))] \<noteq> {0..<length [100::nat, 200]}"
    by blast
  then show ?thesis by (simp only: call_over_two_datasets map_sum.simps id_apply merge_result.simps simp_thms)
qed

theorem consensus_score_is_mean_per_dataset_id_witness:
  "map_sum id mean_consensus_score
     (IntersectMerge_call 0 example_merge_annotations [100, 200, 300]
        [((''frame'', ''''), [(100, example_item 7 10), (200, example_item 8 20)])])
     = Inr [(100, Some 1), (200, Some (4/5)), (300, None)] \<and>
   np_mean [4/5] = Some (4/5) \<and> np_mean [] = None"
  using consensus_score_is_mean_per_dataset_id
    [OF example_merge_annotations_unit_scores call_over_three_datasets]
  by (simp add: call_over_three_datasets np_mean_def)

end
